theory Spec2Isabelle
  imports Complex_Main "HOL-Library.Multiset" "HOL-Library.AList"
begin

section \<open>Errors, colours, keyword arguments\<close>

text \<open>
  The exceptions the Logo code can raise.  Every \<^verbatim>\<open>assert\<close> of the source raises
  \<open>AssertionError\<close> with its message; a missing dictionary key raises \<open>KeyError\<close>;
  \<^verbatim>\<open>min([])\<close> raises \<open>ValueError\<close>; a method call on \<^verbatim>\<open>None\<close> raises
  \<open>AttributeError\<close>; an index out of range raises \<open>IndexError\<close>; a \<^verbatim>\<open>%\<close> format that does
  not fit its argument raises \<open>TypeError\<close> or \<open>ValueError\<close>.
\<close>

datatype error =
    AssertionError string
  | KeyError string
  | ValueError string
  | AttributeError string
  | IndexError
  | TypeError string

text \<open>
  A method of the Logo object either returns (\<open>Ok\<close>) or raises (\<open>Raised\<close>); in both
  cases the object survives, so both carry the state the object is left in.
\<close>

datatype 's result = Ok 's | Raised error 's

text \<open>
  A colour specification as the constructor docstring lists it: a name (of a scheme, a
  matplotlib colour or a colormap), an RGB/RGBA list, or a dictionary from characters to
  colours.  Python floats are idealised as real numbers throughout.
\<close>

datatype color = ColorName string | ColorRGB "real list" | ColorDict "(string \<times> color) list"

datatype attr_value = Num real | Flag bool | Txt string | Col color

type_synonym kwargs = "(string \<times> attr_value) list"

section \<open>Glyphs, the drawing surface, the matrix\<close>

text \<open>
  Modelled from the spec: the Glyph class (\<^verbatim>\<open>logomaker.Glyph\<close>) is not part of the
  source file.  A glyph placement record holds position, character, vertical floor and
  ceiling, colour, flip flag, width and z-order.  The Logo code passes every field but the
  width, which is the class default and is taken as a parameter.
\<close>

record glyph =
  g_p :: real
  g_c :: string
  g_floor :: real
  g_ceiling :: real
  g_color :: "real list"
  g_flip :: bool
  g_zorder :: real
  g_width :: real

definition Glyph :: "real \<Rightarrow> real \<Rightarrow> string \<Rightarrow> real \<Rightarrow> real \<Rightarrow> real list \<Rightarrow> bool \<Rightarrow> real \<Rightarrow> glyph" where
  "Glyph w p c floor_y ceiling_y this_color flip z =
     \<lparr>g_p = p, g_c = c, g_floor = floor_y, g_ceiling = ceiling_y, g_color = this_color,
      g_flip = flip, g_zorder = z, g_width = w\<rparr>"

text \<open>
  The matplotlib Axes, reduced to what the Logo methods write and read: the artists drawn
  by the glyphs, the rectangle patches, the horizontal lines, the axis limits, the x ticks
  with their labels, and the four spines.
\<close>

record rectangle =
  rect_x :: real
  rect_y :: real
  rect_width :: real
  rect_height :: real
  rect_facecolor :: color
  rect_edgecolor :: "color option"
  rect_zorder :: real
  rect_kwargs :: kwargs

record hline =
  hl_zorder :: real
  hl_color :: color
  hl_linewidth :: real
  hl_kwargs :: kwargs

record spine =
  sp_visible :: bool
  sp_color :: color
  sp_linewidth :: real
  sp_bounds :: "(real \<times> real) option"

record axes =
  ax_artists :: "glyph list"
  ax_patches :: "rectangle list"
  ax_lines :: "hline list"
  ax_xlim :: "real \<times> real"
  ax_ylim :: "real \<times> real"
  ax_xticks :: "real list"
  ax_xticklabels :: "string list"
  ax_xtick_rotation :: real
  ax_xtick_kwargs :: kwargs
  ax_spines :: "(string \<times> spine) list"

text \<open>
  The matrix data frame: the positions index the rows, the characters index the columns.
  The constructor reads the index through \<^verbatim>\<open>float\<close> and the columns through \<^verbatim>\<open>str\<close>, so
  the model holds them as reals and strings.
\<close>

record dataframe =
  df_index :: "real list"
  df_columns :: "string list"
  df_values :: "real list list"

datatype matrix_arg = PdDataFrame dataframe | MatrixObject dataframe | OtherObject

text \<open>
  What the Logo code calls but does not define: numpy's \<^verbatim>\<open>argsort\<close> (called with its
  default \<^verbatim>\<open>kind\<close>), the colour resolution \<^verbatim>\<open>lm_color.get_color_dict\<close>, the \<^verbatim>\<open>Matrix\<close>
  wrapper (its constructor followed by \<^verbatim>\<open>.df\<close>), \<^verbatim>\<open>Glyph.set_attributes\<close>, \<^verbatim>\<open>Glyph.draw\<close>,
  the default glyph width, \<^verbatim>\<open>Axes.clear\<close>, the ambient \<^verbatim>\<open>plt.gca()\<close> and the \<^verbatim>\<open>%\<close>
  formatting of a number, which returns the string or raises.  They are parameters of the
  model.
\<close>

record env =
  argsort :: "real list \<Rightarrow> nat list"
  get_color_dict :: "color \<Rightarrow> string list \<Rightarrow> error + (string \<times> real list) list"
  Matrix_df :: "dataframe \<Rightarrow> error + dataframe"
  set_attributes :: "kwargs \<Rightarrow> glyph \<Rightarrow> glyph"
  glyph_draw :: "glyph \<Rightarrow> axes \<Rightarrow> axes"
  glyph_width :: real
  ax_clear :: "axes \<Rightarrow> axes"
  gca :: axes
  py_format :: "string \<Rightarrow> real \<Rightarrow> error + string"

section \<open>The Logo object\<close>

record logo =
  matrix_df :: dataframe
  L :: nat
  cs :: "string list"
  C :: nat
  ps :: "real list"
  colors :: color
  ax :: "axes option"
  negate :: bool
  center :: bool
  flip_below :: bool
  vsep :: real
  zorder :: real
  has_been_drawn :: bool
  rgba_dict :: "(string \<times> real list) list"
  glyph_df :: "((real \<times> string) \<times> glyph) list"

subsection \<open>\<^verbatim>\<open>_compute_characters\<close>\<close>

text \<open>\<^verbatim>\<open>floor = sum((vs - vsep) * (vs < 0)) + vsep/2.0\<close>: the comparison counts as 1 or 0.\<close>

definition initial_floor :: "real \<Rightarrow> real list \<Rightarrow> real" where
  "initial_floor sep vs =
     sum_list (map (\<lambda>v. (v - sep) * (if v < 0 then 1 else 0)) vs) + sep / 2"

text \<open>
  \<^verbatim>\<open>ordered_indices = np.argsort(vs); vs = vs[ordered_indices]; cs = self.cs[ordered_indices]\<close>.
  An index outside either array raises \<open>IndexError\<close>.
\<close>

definition sort_row :: "env \<Rightarrow> string list \<Rightarrow> real list \<Rightarrow> error + (real \<times> string) list" where
  "sort_row E chars vs =
     (let ordered_indices = argsort E vs in
      if (\<forall>i \<in> set ordered_indices. i < length vs \<and> i < length chars)
      then Inr (zip (map (\<lambda>i. vs ! i) ordered_indices) (map (\<lambda>i. chars ! i) ordered_indices))
      else Inl IndexError)"

text \<open>
  The inner loop over the sorted characters of one position: the ceiling is the floor plus
  the absolute value, the colour is looked up in \<open>rgba_dict\<close> (a missing character raises
  \<open>KeyError\<close>), the glyph is flipped when its value is negative and \<open>flip_below\<close> is set,
  and the next floor is the ceiling plus \<open>vsep\<close>.
\<close>

fun stack_glyphs :: "env \<Rightarrow> logo \<Rightarrow> real \<Rightarrow> real \<Rightarrow> (real \<times> string) list \<Rightarrow> error + glyph list" where
  "stack_glyphs E self p floor_y [] = Inr []"
| "stack_glyphs E self p floor_y ((v, c) # rest) =
     (let ceiling_y = floor_y + \<bar>v\<bar> in
      case map_of (rgba_dict self) c of
        None \<Rightarrow> Inl (KeyError c)
      | Some rgba \<Rightarrow>
          (let this_color = take 3 rgba;
               flip = (v < 0 \<and> flip_below self);
               glyph = Glyph (glyph_width E) p c floor_y ceiling_y this_color flip (zorder self)
           in case stack_glyphs E self p (ceiling_y + vsep self) rest of
                Inl e \<Rightarrow> Inl e
              | Inr gs \<Rightarrow> Inr (glyph # gs)))"

text \<open>
  One pass of the outer loop: sort the row, set the floor from the sorted values, stack.
  \<^verbatim>\<open>zip(range(self.C), vs, cs)\<close> stops after \<open>C\<close> characters.
\<close>

definition layout_row :: "env \<Rightarrow> logo \<Rightarrow> real \<Rightarrow> real list \<Rightarrow> error + glyph list" where
  "layout_row E self p row =
     (case sort_row E (cs self) row of
        Inl e \<Rightarrow> Inl e
      | Inr pairs \<Rightarrow>
          stack_glyphs E self p (initial_floor (vsep self) (map fst pairs)) (take (C self) pairs))"

text \<open>
  \<^verbatim>\<open>self.matrix_df.loc[p, :]\<close>: the row of position \<open>p\<close> (positions are unique in the data
  model); a position that is not in the index raises \<open>KeyError\<close>.
\<close>

definition df_loc :: "dataframe \<Rightarrow> real \<Rightarrow> real list option" where
  "df_loc df p = map_of (zip (df_index df) (df_values df)) p"

fun compute_rows :: "env \<Rightarrow> logo \<Rightarrow> real list \<Rightarrow> error + glyph list" where
  "compute_rows E self [] = Inr []"
| "compute_rows E self (p # rest) =
     (case df_loc (matrix_df self) p of
        None \<Rightarrow> Inl (KeyError ''position'')
      | Some row \<Rightarrow>
          (case layout_row E self p row of
             Inl e \<Rightarrow> Inl e
           | Inr gs \<Rightarrow>
               (case compute_rows E self rest of
                  Inl e \<Rightarrow> Inl e
                | Inr gs' \<Rightarrow> Inr (gs @ gs'))))"

text \<open>\<^verbatim>\<open>glyph_df.loc[p, c] = glyph\<close>: the cell is overwritten, or added at the end.\<close>

definition df_set :: "glyph \<Rightarrow> ((real \<times> string) \<times> glyph) list \<Rightarrow> ((real \<times> string) \<times> glyph) list" where
  "df_set g df = AList.update (g_p g, g_c g) g df"

definition compute_characters :: "env \<Rightarrow> logo \<Rightarrow> error + logo" where
  "compute_characters E self =
     (case compute_rows E self (ps self) of
        Inl e \<Rightarrow> Inl e
      | Inr gs \<Rightarrow> Inr (self\<lparr>glyph_df := foldl (\<lambda>df g. df_set g df) [] gs\<rparr>))"

text \<open>
  \<^verbatim>\<open>glyph_df.index\<close> and \<^verbatim>\<open>glyph_df.columns\<close> are the row and column labels in the order they
  were first written; \<^verbatim>\<open>glyph_list\<close> is the table read row by row, keeping the cells that
  hold a glyph.  The glyph objects are shared between \<^verbatim>\<open>glyph_df\<close> and \<^verbatim>\<open>glyph_list\<close>, so the
  model stores them once and derives the list.
\<close>

definition first_seen :: "'a list \<Rightarrow> 'a list" where
  "first_seen xs = rev (remdups (rev xs))"

definition glyph_df_index :: "logo \<Rightarrow> real list" where
  "glyph_df_index self = first_seen (map (\<lambda>kv. fst (fst kv)) (glyph_df self))"

definition glyph_df_columns :: "logo \<Rightarrow> string list" where
  "glyph_df_columns self = first_seen (map (\<lambda>kv. snd (fst kv)) (glyph_df self))"

definition glyph_list :: "logo \<Rightarrow> glyph list" where
  "glyph_list self =
     concat (map (\<lambda>p. List.map_filter (\<lambda>c. map_of (glyph_df self) (p, c)) (glyph_df_columns self))
                 (glyph_df_index self))"

subsection \<open>\<^verbatim>\<open>_update_ax\<close> and \<^verbatim>\<open>draw\<close>\<close>

definition update_ax :: "axes option \<Rightarrow> logo \<Rightarrow> logo" where
  "update_ax new_ax self = (case new_ax of None \<Rightarrow> self | Some a \<Rightarrow> self\<lparr>ax := Some a\<rparr>)"

text \<open>Python's \<^verbatim>\<open>min\<close> and \<^verbatim>\<open>max\<close> of a list raise \<open>ValueError\<close> on the empty list.\<close>

fun py_min :: "real list \<Rightarrow> error + real" where
  "py_min [] = Inl (ValueError ''min() arg is an empty sequence'')"
| "py_min (x # xs) = Inr (fold min xs x)"

fun py_max :: "real list \<Rightarrow> error + real" where
  "py_max [] = Inl (ValueError ''max() arg is an empty sequence'')"
| "py_max (x # xs) = Inr (fold max xs x)"

text \<open>
  \<^verbatim>\<open>draw\<close>: take the new Axes if one is passed, fall back on \<^verbatim>\<open>plt.gca()\<close>, clear, draw every
  glyph, raise the flag, then set the limits from the glyphs.  With no glyph the first
  \<^verbatim>\<open>min\<close> raises after the flag has been raised.
\<close>

definition draw :: "env \<Rightarrow> axes option \<Rightarrow> logo \<Rightarrow> logo result" where
  "draw E new_ax self0 =
     (let self1 = update_ax new_ax self0;
          a0 = (case ax self1 of None \<Rightarrow> gca E | Some a \<Rightarrow> a);
          a1 = ax_clear E a0;
          gl = glyph_list self1;
          a2 = fold (glyph_draw E) gl a1;
          self2 = self1\<lparr>ax := Some a2, has_been_drawn := True\<rparr>
      in case py_min (map (\<lambda>g. g_p g - 0.5 * g_width g) gl) of
           Inl e \<Rightarrow> Raised e self2
         | Inr xmin \<Rightarrow>
        (case py_max (map (\<lambda>g. g_p g + 0.5 * g_width g) gl) of
           Inl e \<Rightarrow> Raised e self2
         | Inr xmax \<Rightarrow>
        (let a3 = a2\<lparr>ax_xlim := (xmin, xmax)\<rparr>;
             self3 = self2\<lparr>ax := Some a3\<rparr>
         in case py_min (map g_floor gl) of
              Inl e \<Rightarrow> Raised e self3
            | Inr ymin \<Rightarrow>
           (case py_max (map g_ceiling gl) of
              Inl e \<Rightarrow> Raised e self3
            | Inr ymax \<Rightarrow> Ok (self3\<lparr>ax := Some (a3\<lparr>ax_ylim := (ymin, ymax)\<rparr>)\<rparr>)))))"

subsection \<open>The constructor\<close>

definition tuple :: "string \<Rightarrow> string list" where
  "tuple s = map (\<lambda>c. [c]) s"

definition chars_to_colors_dict :: "(string list \<times> string) list" where
  "chars_to_colors_dict =
     [(tuple ''ACGT'', ''classic''),
      (tuple ''ACGU'', ''classic''),
      (tuple ''ACDEFGHIKLMNPQRSTVWY'', ''hydrophobicity'')]"

text \<open>\<^verbatim>\<open>dict.get(key, default)\<close>.\<close>

definition dict_get :: "('k \<times> 'v) list \<Rightarrow> 'k \<Rightarrow> 'v \<Rightarrow> 'v" where
  "dict_get d k dflt = (case map_of d k of None \<Rightarrow> dflt | Some v \<Rightarrow> v)"

definition df_negate :: "dataframe \<Rightarrow> dataframe" where
  "df_negate df = df\<lparr>df_values := map (map uminus) (df_values df)\<rparr>"

definition row_mean :: "real list \<Rightarrow> real" where
  "row_mean row = sum_list row / real (length row)"

definition df_center :: "dataframe \<Rightarrow> dataframe" where
  "df_center df = df\<lparr>df_values := map (\<lambda>row. map (\<lambda>v. v - row_mean row) row) (df_values df)\<rparr>"

record init_args =
  arg_matrix :: matrix_arg
  arg_ax :: "axes option"
  arg_negate :: bool
  arg_center :: bool
  arg_colors :: "color option"
  arg_flip_below :: bool
  arg_vsep :: real
  arg_zorder :: real
  arg_draw_now :: bool

text \<open>
  The attributes as \<^verbatim>\<open>__init__\<close> has set them when it reaches the colour resolution: the
  matrix negated and then centred as requested, no glyph yet, the flag down.
\<close>

definition init_attributes :: "init_args \<Rightarrow> dataframe \<Rightarrow> logo" where
  "init_attributes args m =
     (let chars = df_columns m;
          colors0 = (case arg_colors args of
                       None \<Rightarrow> ColorName (dict_get chars_to_colors_dict chars ''gray'')
                     | Some col \<Rightarrow> col);
          m1 = (if arg_negate args then df_negate m else m);
          m2 = (if arg_center args then df_center m1 else m1)
      in \<lparr>matrix_df = m2, L = length (df_index m), cs = chars, C = length chars,
          ps = df_index m, colors = colors0, ax = arg_ax args, negate = arg_negate args,
          center = arg_center args, flip_below = arg_flip_below args, vsep = arg_vsep args,
          zorder = arg_zorder args, has_been_drawn = False, rgba_dict = [], glyph_df = []\<rparr>)"

definition Logo_init :: "env \<Rightarrow> init_args \<Rightarrow> error + logo" where
  "Logo_init E args =
     (case (case arg_matrix args of
              OtherObject \<Rightarrow>
                Inl (AssertionError
                  ''Error: matrix must be either a pd.DataFrame object or a Matrix object'')
            | PdDataFrame d \<Rightarrow> Matrix_df E d
            | MatrixObject d \<Rightarrow> Inr d) of
        Inl e \<Rightarrow> Inl e
      | Inr m \<Rightarrow>
          (let self0 = init_attributes args m in
           case get_color_dict E (colors self0) (cs self0) of
             Inl e \<Rightarrow> Inl e
           | Inr d \<Rightarrow>
               (case compute_characters E (self0\<lparr>rgba_dict := d\<rparr>) of
                  Inl e \<Rightarrow> Inl e
                | Inr self1 \<Rightarrow>
                    if arg_draw_now args
                    then (case draw E None self1 of Raised e s \<Rightarrow> Inl e | Ok s \<Rightarrow> Inr s)
                    else Inr self1)))"

subsection \<open>Styling single glyphs and glyphs along a sequence\<close>

definition style_single_glyph ::
  "env \<Rightarrow> real \<Rightarrow> string \<Rightarrow> bool \<Rightarrow> axes option \<Rightarrow> kwargs \<Rightarrow> logo \<Rightarrow> logo result" where
  "style_single_glyph E p c draw_now new_ax kw self0 =
     (let self1 = update_ax new_ax self0 in
      if p \<notin> set (glyph_df_index self1)
      then Raised (AssertionError ''Error: p is not a valid position'') self1
      else if c \<notin> set (glyph_df_columns self1)
      then Raised (AssertionError ''Error: c is not a valid character'') self1
      else (case map_of (glyph_df self1) (p, c) of
              None \<Rightarrow> Raised (AttributeError ''set_attributes'') self1
            | Some g \<Rightarrow>
                (let self2 = self1\<lparr>glyph_df :=
                                AList.update (p, c) (set_attributes E kw g) (glyph_df self1)\<rparr>
                 in if draw_now then draw E None self2 else Ok self2)))"

text \<open>
  The loop \<^verbatim>\<open>for i, p in enumerate(self.glyph_df.index)\<close>; the inner call leaves
  \<^verbatim>\<open>draw_now\<close> at its default \<^verbatim>\<open>True\<close>.
\<close>

fun style_positions :: "env \<Rightarrow> string \<Rightarrow> kwargs \<Rightarrow> nat \<Rightarrow> real list \<Rightarrow> logo \<Rightarrow> logo result" where
  "style_positions E sequence kw i [] self0 = Ok self0"
| "style_positions E sequence kw i (p # rest) self0 =
     (if i < length sequence
      then (case style_single_glyph E p [sequence ! i] True None kw self0 of
              Raised e s \<Rightarrow> Raised e s
            | Ok s \<Rightarrow> style_positions E sequence kw (Suc i) rest s)
      else Raised IndexError self0)"

definition style_glyphs_in_sequence ::
  "env \<Rightarrow> string \<Rightarrow> bool \<Rightarrow> axes option \<Rightarrow> kwargs \<Rightarrow> logo \<Rightarrow> logo result" where
  "style_glyphs_in_sequence E sequence draw_now new_ax kw self0 =
     (let self1 = update_ax new_ax self0 in
      if length sequence \<noteq> L self1
      then Raised (AssertionError
             ''Error: sequence to highlight does not have same length as logo.'') self1
      else if (\<exists>c \<in> set sequence. [c] \<notin> set (cs self1))
      then Raised (AssertionError ''Error: sequence contains invalid character'') self1
      else (case style_positions E sequence kw 0 (glyph_df_index self1) self1 of
              Raised e s \<Rightarrow> Raised e s
            | Ok s \<Rightarrow> if draw_now then draw E None s else Ok s))"

subsection \<open>Operations on a drawn logo\<close>

definition not_drawn :: error where
  "not_drawn = AssertionError ''Error: Cannot call this function until Log0 has been drawn.''"

definition highlight_position_range ::
  "real \<Rightarrow> real \<Rightarrow> real \<Rightarrow> color \<Rightarrow> color option \<Rightarrow> real option \<Rightarrow> real option \<Rightarrow> real \<Rightarrow> kwargs
     \<Rightarrow> logo \<Rightarrow> logo result" where
  "highlight_position_range pmin pmax padding col edgecolor floor_arg ceiling_arg z kw self0 =
     (if \<not> has_been_drawn self0 then Raised not_drawn self0
      else case ax self0 of
        None \<Rightarrow> Raised (AttributeError ''get_ylim'') self0
      | Some a \<Rightarrow>
         (let (ymin, ymax) = ax_ylim a;
              floor_y = (case floor_arg of None \<Rightarrow> ymin | Some f \<Rightarrow> f);
              ceiling_y = (case ceiling_arg of None \<Rightarrow> ymax | Some c \<Rightarrow> c)
          in if \<not> floor_y < ceiling_y
             then Raised (AssertionError ''Error: floor < ceiling not satisfied.'') self0
             else if \<not> pmin \<le> pmax
             then Raised (AssertionError ''Error: pmin <= pmax not satisfied.'') self0
             else if \<not> padding \<ge> - 0.5
             then Raised (AssertionError ''Error: padding >= -0.5 not satisfied'') self0
             else
               (let x = pmin - 0.5 - padding;
                    y = floor_y;
                    width = pmax - pmin + 1 + 2 * padding;
                    height = ceiling_y - floor_y;
                    patch = \<lparr>rect_x = x, rect_y = y, rect_width = width, rect_height = height,
                             rect_facecolor = col, rect_edgecolor = edgecolor, rect_zorder = z,
                             rect_kwargs = kw\<rparr>
                in Ok (self0\<lparr>ax := Some (a\<lparr>ax_patches := ax_patches a @ [patch]\<rparr>)\<rparr>))))"

definition highlight_position ::
  "real \<Rightarrow> real \<Rightarrow> color \<Rightarrow> color option \<Rightarrow> real option \<Rightarrow> real option \<Rightarrow> real \<Rightarrow> kwargs
     \<Rightarrow> logo \<Rightarrow> logo result" where
  "highlight_position p padding col edgecolor floor_arg ceiling_arg z kw self0 =
     (if \<not> has_been_drawn self0 then Raised not_drawn self0
      else highlight_position_range p p padding col edgecolor floor_arg ceiling_arg z kw self0)"

definition draw_baseline :: "real \<Rightarrow> color \<Rightarrow> real \<Rightarrow> kwargs \<Rightarrow> logo \<Rightarrow> logo result" where
  "draw_baseline z col linewidth kw self0 =
     (if \<not> has_been_drawn self0 then Raised not_drawn self0
      else case ax self0 of
        None \<Rightarrow> Raised (AttributeError ''axhline'') self0
      | Some a \<Rightarrow>
          Ok (self0\<lparr>ax := Some (a\<lparr>ax_lines := ax_lines a @
                [\<lparr>hl_zorder = z, hl_color = col, hl_linewidth = linewidth, hl_kwargs = kw\<rparr>]\<rparr>)\<rparr>))"

text \<open>
  \<^verbatim>\<open>np.arange(start, stop)\<close> with step 1 holds \<open>start + i\<close> for the \<open>\<lceil>stop - start\<rceil>\<close> first
  naturals \<open>i\<close>.  The \<^verbatim>\<open>%\<close> of numpy floats takes the sign of the divisor, and is \<^verbatim>\<open>nan\<close>
  (\<open>None\<close>, equal to nothing) when the divisor is zero.
\<close>

definition np_arange :: "real \<Rightarrow> real \<Rightarrow> real list" where
  "np_arange start stop = map (\<lambda>i. start + real i) [0..<nat \<lceil>stop - start\<rceil>]"

definition np_mod :: "real \<Rightarrow> real \<Rightarrow> real option" where
  "np_mod x s = (if s = 0 then None else Some (x - s * of_int \<lfloor>x / s\<rfloor>))"

text \<open>
  \<^verbatim>\<open>[fmt % p for p in xticks]\<close>: the labels in order, or the error of the first tick that the
  format does not fit.
\<close>

fun format_all :: "env \<Rightarrow> string \<Rightarrow> real list \<Rightarrow> error + string list" where
  "format_all E fmt [] = Inr []"
| "format_all E fmt (p # rest) =
     (case py_format E fmt p of
        Inl e \<Rightarrow> Inl e
      | Inr label \<Rightarrow>
          (case format_all E fmt rest of
             Inl e \<Rightarrow> Inl e
           | Inr labels \<Rightarrow> Inr (label # labels)))"

text \<open>
  \<^verbatim>\<open>style_xticks\<close>: the ticks are set before the labels are formatted, so a format error
  leaves the new ticks on the Axes.
\<close>

definition style_xticks ::
  "env \<Rightarrow> real \<Rightarrow> real \<Rightarrow> string \<Rightarrow> real \<Rightarrow> kwargs \<Rightarrow> logo \<Rightarrow> logo result" where
  "style_xticks E anchor spacing fmt rotation kw self0 =
     (if \<not> has_been_drawn self0 then Raised not_drawn self0
      else case py_min (ps self0) of
        Inl e \<Rightarrow> Raised e self0
      | Inr p_min \<Rightarrow>
     (case py_max (ps self0) of
        Inl e \<Rightarrow> Raised e self0
      | Inr p_max \<Rightarrow>
         (let grid = np_arange p_min (p_max + 1);
              xticks = filter (\<lambda>p. np_mod (p - anchor) spacing = Some 0) grid
          in case ax self0 of
               None \<Rightarrow> Raised (AttributeError ''set_xticks'') self0
             | Some a \<Rightarrow>
                 (let a1 = a\<lparr>ax_xticks := xticks\<rparr>
                  in case format_all E fmt xticks of
                       Inl e \<Rightarrow> Raised e (self0\<lparr>ax := Some a1\<rparr>)
                     | Inr xticklabels \<Rightarrow>
                         Ok (self0\<lparr>ax := Some (a1\<lparr>ax_xticklabels := xticklabels,
                                                     ax_xtick_rotation := rotation,
                                                     ax_xtick_kwargs := kw\<rparr>)\<rparr>)))))"

definition style_spines ::
  "string list \<Rightarrow> bool \<Rightarrow> real \<Rightarrow> color \<Rightarrow> (real \<times> real) option \<Rightarrow> logo \<Rightarrow> logo result" where
  "style_spines spines visible linewidth col bounds self0 =
     (if \<not> has_been_drawn self0 then Raised not_drawn self0
      else case ax self0 of
        None \<Rightarrow> Raised (AttributeError ''spines'') self0
      | Some a \<Rightarrow>
          Ok (self0\<lparr>ax := Some (a\<lparr>ax_spines :=
                map (\<lambda>(name, sp).
                       if name \<in> set spines
                       then (name, sp\<lparr>sp_visible := visible, sp_color := col,
                                     sp_linewidth := linewidth,
                                     sp_bounds := (case bounds of None \<Rightarrow> sp_bounds sp
                                                   | Some b \<Rightarrow> Some b)\<rparr>)
                       else (name, sp))
                    (ax_spines a)\<rparr>)\<rparr>))"

section \<open>Vocabulary of the properties\<close>

text \<open>
  The contract of \<^verbatim>\<open>np.argsort\<close> on one row: the result is a permutation of the indices of
  the row, and reading the row through it gives the values in ascending order.  The
  default \<^verbatim>\<open>kind\<close> that the source uses promises nothing about the order of equal values.
\<close>

definition argsort_sorts :: "env \<Rightarrow> real list \<Rightarrow> bool" where
  "argsort_sorts E vs \<longleftrightarrow>
     mset (argsort E vs) = mset [0..<length vs] \<and> sorted (map (\<lambda>i. vs ! i) (argsort E vs))"

text \<open>The values and the characters of a row in stacking order.\<close>

definition sorted_values :: "env \<Rightarrow> real list \<Rightarrow> real list" where
  "sorted_values E row = map (\<lambda>i. row ! i) (argsort E row)"

definition sorted_chars :: "env \<Rightarrow> string list \<Rightarrow> real list \<Rightarrow> string list" where
  "sorted_chars E chars row = map (\<lambda>i. chars ! i) (argsort E row)"

text \<open>
  Two argsorts that meet the contract: one keeps equal values in column order, the other
  puts equal values in reverse column order.
\<close>

definition stable_argsort :: "real list \<Rightarrow> nat list" where
  "stable_argsort vs = sort_key (\<lambda>i. vs ! i) [0..<length vs]"

definition reversed_ties_argsort :: "real list \<Rightarrow> nat list" where
  "reversed_ties_argsort vs = sort_key (\<lambda>i. vs ! i) (rev [0..<length vs])"

text \<open>
  The \<^verbatim>\<open>%\<close> formatting of the examples knows the format \<^verbatim>\<open>%d\<close>, which prints the number
  truncated towards zero in decimal; a format without any conversion raises \<open>TypeError\<close>,
  as Python does when the argument is left over.
\<close>

fun decimal :: "nat \<Rightarrow> string" where
  "decimal n =
     (if n < 10 then [''0123456789'' ! n]
      else decimal (n div 10) @ [''0123456789'' ! (n mod 10)])"

definition format_d :: "real \<Rightarrow> string" where
  "format_d p =
     (if p < 0 then (if \<lceil>p\<rceil> = 0 then ''0'' else ''-'' @ decimal (nat (- \<lceil>p\<rceil>)))
      else decimal (nat \<lfloor>p\<rfloor>))"

definition example_format :: "string \<Rightarrow> real \<Rightarrow> error + string" where
  "example_format fmt p =
     (if fmt = ''%d'' then Inr (format_d p)
      else if CHR ''%'' \<notin> set fmt
      then Inl (TypeError ''not all arguments converted during string formatting'')
      else Inl (ValueError ''unsupported format character''))"

text \<open>Concrete collaborators, a concrete matrix and a concrete Logo for the examples.\<close>

definition blank_axes :: axes where
  "blank_axes = \<lparr>ax_artists = [], ax_patches = [], ax_lines = [], ax_xlim = (0, 1),
     ax_ylim = (0, 1), ax_xticks = [], ax_xticklabels = [], ax_xtick_rotation = 0,
     ax_xtick_kwargs = [], ax_spines = []\<rparr>"

definition example_env :: env where
  "example_env = \<lparr>argsort = stable_argsort,
     get_color_dict = (\<lambda>col chars. Inr (map (\<lambda>c. (c, [1/2, 1/2, 1/2, 1])) chars)),
     Matrix_df = Inr,
     set_attributes =
       (\<lambda>kw g. case map_of kw ''flip'' of Some (Flag b) \<Rightarrow> g\<lparr>g_flip := b\<rparr> | _ \<Rightarrow> g),
     glyph_draw = (\<lambda>g a. a\<lparr>ax_artists := ax_artists a @ [g]\<rparr>),
     glyph_width = 0.95,
     ax_clear = (\<lambda>a. blank_axes),
     gca = blank_axes,
     py_format = example_format\<rparr>"

definition reversed_ties_env :: env where
  "reversed_ties_env = example_env\<lparr>argsort := reversed_ties_argsort\<rparr>"

definition example_args :: "real list list \<Rightarrow> string list \<Rightarrow> real \<Rightarrow> init_args" where
  "example_args rows chars sep =
     \<lparr>arg_matrix = MatrixObject
        \<lparr>df_index = map real [0..<length rows], df_columns = chars, df_values = rows\<rparr>,
      arg_ax = None, arg_negate = False, arg_center = False, arg_colors = None,
      arg_flip_below = True, arg_vsep = sep, arg_zorder = 0, arg_draw_now = False\<rparr>"

definition example_logo :: "string list \<Rightarrow> real \<Rightarrow> logo" where
  "example_logo chars sep =
     (init_attributes (example_args [] chars sep)
        \<lparr>df_index = [], df_columns = chars, df_values = []\<rparr>)
       \<lparr>rgba_dict := map (\<lambda>c. (c, [1/2, 1/2, 1/2, 1])) chars\<rparr>"

definition example_matrix :: dataframe where
  "example_matrix = \<lparr>df_index = [0, 1, 2], df_columns = [''A'', ''C''],
     df_values = [[1, 3], [- 2, 2], [0, 4]]\<rparr>"

definition undrawn_args :: init_args where
  "undrawn_args = \<lparr>arg_matrix = MatrixObject example_matrix,
      arg_ax = None, arg_negate = False, arg_center = False, arg_colors = None,
      arg_flip_below = True, arg_vsep = 0, arg_zorder = 0, arg_draw_now = False\<rparr>"

definition drawn_args :: init_args where
  "drawn_args = undrawn_args\<lparr>arg_draw_now := True\<rparr>"

text \<open>The glyphs of the example matrix, and the example Logo before and after drawing.\<close>

definition example_glyphs :: "glyph list" where
  "example_glyphs =
     [Glyph (19/20) 0 ''A'' 0 1 [1/2, 1/2, 1/2] False 0,
      Glyph (19/20) 0 ''C'' 1 4 [1/2, 1/2, 1/2] False 0,
      Glyph (19/20) 1 ''A'' (- 2) 0 [1/2, 1/2, 1/2] True 0,
      Glyph (19/20) 1 ''C'' 0 2 [1/2, 1/2, 1/2] False 0,
      Glyph (19/20) 2 ''A'' 0 0 [1/2, 1/2, 1/2] False 0,
      Glyph (19/20) 2 ''C'' 0 4 [1/2, 1/2, 1/2] False 0]"

definition undrawn_logo :: logo where
  "undrawn_logo = \<lparr>matrix_df = example_matrix, L = 3, cs = [''A'', ''C''], C = 2,
     ps = [0, 1, 2], colors = ColorName ''gray'', ax = None, negate = False, center = False,
     flip_below = True, vsep = 0, zorder = 0, has_been_drawn = False,
     rgba_dict = [(''A'', [1/2, 1/2, 1/2, 1]), (''C'', [1/2, 1/2, 1/2, 1])],
     glyph_df = map (\<lambda>g. ((g_p g, g_c g), g)) example_glyphs\<rparr>"

definition drawn_axes :: axes where
  "drawn_axes = blank_axes\<lparr>ax_artists := example_glyphs, ax_xlim := (- 19/40, 99/40),
     ax_ylim := (- 2, 4)\<rparr>"

definition drawn_logo :: logo where
  "drawn_logo = undrawn_logo\<lparr>ax := Some drawn_axes, has_been_drawn := True\<rparr>"

text \<open>The lower and upper extent of a highlight: the argument, or the Axes limit.\<close>

definition highlight_floor :: "axes \<Rightarrow> real option \<Rightarrow> real" where
  "highlight_floor a floor_arg = (case floor_arg of None \<Rightarrow> fst (ax_ylim a) | Some f \<Rightarrow> f)"

definition highlight_ceiling :: "axes \<Rightarrow> real option \<Rightarrow> real" where
  "highlight_ceiling a ceiling_arg = (case ceiling_arg of None \<Rightarrow> snd (ax_ylim a) | Some c \<Rightarrow> c)"

definition centred_args :: init_args where
  "centred_args = undrawn_args\<lparr>arg_negate := True, arg_center := True\<rparr>"

text \<open>A one-position matrix laid out with the gap \<open>-1\<close>, drawn at construction.\<close>

definition negative_gap_args :: init_args where
  "negative_gap_args = (example_args [[1, 2]] [''A'', ''C''] (- 1))\<lparr>arg_draw_now := True\<rparr>"

definition negative_gap_glyphs :: "glyph list" where
  "negative_gap_glyphs =
     [Glyph (19/20) 0 ''A'' (- 1/2) (1/2) [1/2, 1/2, 1/2] False 0,
      Glyph (19/20) 0 ''C'' (- 1/2) (3/2) [1/2, 1/2, 1/2] False 0]"

definition negative_gap_logo :: logo where
  "negative_gap_logo = \<lparr>matrix_df = \<lparr>df_index = [0], df_columns = [''A'', ''C''],
        df_values = [[1, 2]]\<rparr>,
     L = 1, cs = [''A'', ''C''], C = 2, ps = [0], colors = ColorName ''gray'',
     ax = Some (blank_axes\<lparr>ax_artists := negative_gap_glyphs, ax_xlim := (- 19/40, 19/40),
                             ax_ylim := (- 1/2, 3/2)\<rparr>),
     negate = False, center = False, flip_below = True, vsep = - 1, zorder = 0,
     has_been_drawn = True,
     rgba_dict = [(''A'', [1/2, 1/2, 1/2, 1]), (''C'', [1/2, 1/2, 1/2, 1])],
     glyph_df = map (\<lambda>g. ((g_p g, g_c g), g)) negative_gap_glyphs\<rparr>"

text \<open>
  The glyphs a Logo holds for one position (the row \<^verbatim>\<open>glyph_df.loc[p, :]\<close>), in the order in
  which they were stacked.
\<close>

definition glyphs_at :: "logo \<Rightarrow> real \<Rightarrow> glyph list" where
  "glyphs_at self p = map snd (filter (\<lambda>kv. fst (fst kv) = p) (glyph_df self))"

text \<open>A two-position matrix laid out with the gap 1, not drawn.\<close>

definition gap_args :: init_args where
  "gap_args = example_args [[- 2, 3, - 1], [1, 0, 2]] [''A'', ''C'', ''G''] 1"

definition gap_glyphs :: "glyph list" where
  "gap_glyphs =
     [Glyph (19/20) 0 ''A'' (- 9/2) (- 5/2) [1/2, 1/2, 1/2] True 0,
      Glyph (19/20) 0 ''G'' (- 3/2) (- 1/2) [1/2, 1/2, 1/2] True 0,
      Glyph (19/20) 0 ''C'' (1/2) (7/2) [1/2, 1/2, 1/2] False 0,
      Glyph (19/20) 1 ''C'' (1/2) (1/2) [1/2, 1/2, 1/2] False 0,
      Glyph (19/20) 1 ''A'' (3/2) (5/2) [1/2, 1/2, 1/2] False 0,
      Glyph (19/20) 1 ''G'' (7/2) (11/2) [1/2, 1/2, 1/2] False 0]"

definition gap_logo :: logo where
  "gap_logo = \<lparr>matrix_df = \<lparr>df_index = [0, 1], df_columns = [''A'', ''C'', ''G''],
        df_values = [[- 2, 3, - 1], [1, 0, 2]]\<rparr>,
     L = 2, cs = [''A'', ''C'', ''G''], C = 3, ps = [0, 1], colors = ColorName ''gray'',
     ax = None, negate = False, center = False, flip_below = True, vsep = 1, zorder = 0,
     has_been_drawn = False,
     rgba_dict = [(''A'', [1/2, 1/2, 1/2, 1]), (''C'', [1/2, 1/2, 1/2, 1]),
                  (''G'', [1/2, 1/2, 1/2, 1])],
     glyph_df = map (\<lambda>g. ((g_p g, g_c g), g)) gap_glyphs\<rparr>"

text \<open>
  A one-position matrix with equal values, laid out with an argsort that returns the
  indices \<open>3, 2, 1, 0\<close> for the row \<open>2, 2, 0, 0\<close>.
\<close>

definition tie_args :: init_args where
  "tie_args = example_args [[2, 2, 0, 0]] [''A'', ''C'', ''G'', ''T''] 0"

definition tie_glyphs :: "glyph list" where
  "tie_glyphs =
     [Glyph (19/20) 0 ''T'' 0 0 [1/2, 1/2, 1/2] False 0,
      Glyph (19/20) 0 ''G'' 0 0 [1/2, 1/2, 1/2] False 0,
      Glyph (19/20) 0 ''C'' 0 2 [1/2, 1/2, 1/2] False 0,
      Glyph (19/20) 0 ''A'' 2 4 [1/2, 1/2, 1/2] False 0]"

definition tie_logo :: logo where
  "tie_logo = \<lparr>matrix_df = \<lparr>df_index = [0], df_columns = [''A'', ''C'', ''G'', ''T''],
        df_values = [[2, 2, 0, 0]]\<rparr>,
     L = 1, cs = [''A'', ''C'', ''G'', ''T''], C = 4, ps = [0], colors = ColorName ''classic'',
     ax = None, negate = False, center = False, flip_below = True, vsep = 0, zorder = 0,
     has_been_drawn = False,
     rgba_dict = [(''A'', [1/2, 1/2, 1/2, 1]), (''C'', [1/2, 1/2, 1/2, 1]),
                  (''G'', [1/2, 1/2, 1/2, 1]), (''T'', [1/2, 1/2, 1/2, 1])],
     glyph_df = map (\<lambda>g. ((g_p g, g_c g), g)) tie_glyphs\<rparr>"

text \<open>A drawn Logo whose two positions are \<open>0\<close> and \<open>5/2\<close>.\<close>

definition fractional_args :: init_args where
  "fractional_args = \<lparr>arg_matrix = MatrixObject
        \<lparr>df_index = [0, 5/2], df_columns = [''A'', ''C''], df_values = [[1, 3], [2, 4]]\<rparr>,
      arg_ax = None, arg_negate = False, arg_center = False, arg_colors = None,
      arg_flip_below = True, arg_vsep = 0, arg_zorder = 0, arg_draw_now = True\<rparr>"

definition fractional_glyphs :: "glyph list" where
  "fractional_glyphs =
     [Glyph (19/20) 0 ''A'' 0 1 [1/2, 1/2, 1/2] False 0,
      Glyph (19/20) 0 ''C'' 1 4 [1/2, 1/2, 1/2] False 0,
      Glyph (19/20) (5/2) ''A'' 0 2 [1/2, 1/2, 1/2] False 0,
      Glyph (19/20) (5/2) ''C'' 2 6 [1/2, 1/2, 1/2] False 0]"

definition fractional_axes :: axes where
  "fractional_axes = blank_axes\<lparr>ax_artists := fractional_glyphs, ax_xlim := (- 19/40, 119/40),
     ax_ylim := (0, 6)\<rparr>"

definition fractional_logo :: logo where
  "fractional_logo = \<lparr>matrix_df = \<lparr>df_index = [0, 5/2], df_columns = [''A'', ''C''],
        df_values = [[1, 3], [2, 4]]\<rparr>,
     L = 2, cs = [''A'', ''C''], C = 2, ps = [0, 5/2], colors = ColorName ''gray'',
     ax = Some fractional_axes, negate = False, center = False, flip_below = True, vsep = 0,
     zorder = 0, has_been_drawn = True,
     rgba_dict = [(''A'', [1/2, 1/2, 1/2, 1]), (''C'', [1/2, 1/2, 1/2, 1])],
     glyph_df = map (\<lambda>g. ((g_p g, g_c g), g)) fractional_glyphs\<rparr>"

section \<open>The stack of one position\<close>

lemma stack_glyphs_returns:
  "snd ` set pairs \<subseteq> fst ` set (rgba_dict self) \<Longrightarrow> \<exists>gs. stack_glyphs E self p f pairs = Inr gs"
proof (induction pairs arbitrary: f)
  case Nil
  then show ?case by simp
next
  case (Cons vc pairs)
  obtain v c where vc: "vc = (v, c)" by (cases vc)
  from Cons.prems vc have "c \<in> fst ` set (rgba_dict self)" by auto
  then obtain rgba where m: "map_of (rgba_dict self) c = Some rgba"
    by (metis map_of_eq_None_iff not_Some_eq)
  from Cons.prems have "snd ` set pairs \<subseteq> fst ` set (rgba_dict self)" by auto
  from Cons.IH[OF this] obtain gs where
    "stack_glyphs E self p (f + \<bar>v\<bar> + vsep self) pairs = Inr gs" by blast
  with m vc show ?case by (simp add: Let_def)
qed

lemma stack_glyphs_Cons:
  "stack_glyphs E self p f ((v, c) # rest) = Inr gs \<longleftrightarrow>
     (\<exists>rgba gs'. map_of (rgba_dict self) c = Some rgba \<and>
        stack_glyphs E self p (f + \<bar>v\<bar> + vsep self) rest = Inr gs' \<and>
        gs = Glyph (glyph_width E) p c f (f + \<bar>v\<bar>) (take 3 rgba) (v < 0 \<and> flip_below self)
               (zorder self) # gs')"
  by (auto simp: Let_def split: option.splits sum.splits)

lemma stack_glyphs_length:
  "stack_glyphs E self p f pairs = Inr gs \<Longrightarrow> length gs = length pairs"
proof (induction pairs arbitrary: f gs)
  case Nil
  then show ?case by simp
next
  case (Cons vc pairs)
  obtain v c where vc: "vc = (v, c)" by (cases vc)
  from Cons.prems[unfolded vc stack_glyphs_Cons] obtain gs' where
    "stack_glyphs E self p (f + \<bar>v\<bar> + vsep self) pairs = Inr gs'" and "length gs = Suc (length gs')"
    by auto
  with Cons.IH show ?case by simp
qed

lemma stack_glyphs_nth:
  "stack_glyphs E self p f pairs = Inr gs \<Longrightarrow> i < length pairs \<Longrightarrow>
     g_floor (gs ! i) = f + (\<Sum>v\<leftarrow>take i (map fst pairs). \<bar>v\<bar> + vsep self) \<and>
     g_ceiling (gs ! i) = g_floor (gs ! i) + \<bar>fst (pairs ! i)\<bar> \<and>
     g_c (gs ! i) = snd (pairs ! i) \<and> g_p (gs ! i) = p \<and>
     g_flip (gs ! i) = (fst (pairs ! i) < 0 \<and> flip_below self)"
proof (induction pairs arbitrary: f gs i)
  case Nil
  then show ?case by simp
next
  case (Cons vc pairs)
  obtain v c where vc: "vc = (v, c)" by (cases vc)
  from Cons.prems(1)[unfolded vc stack_glyphs_Cons] obtain rgba gs' where
    rest: "stack_glyphs E self p (f + \<bar>v\<bar> + vsep self) pairs = Inr gs'"
    and gs: "gs = Glyph (glyph_width E) p c f (f + \<bar>v\<bar>) (take 3 rgba) (v < 0 \<and> flip_below self) (zorder self) # gs'"
    by auto
  show ?case
  proof (cases i)
    case 0
    with gs vc show ?thesis by (simp add: Glyph_def)
  next
    case (Suc j)
    with Cons.prems(2) have "j < length pairs" by simp
    from Cons.IH[OF rest this] Suc gs vc show ?thesis by (simp add: algebra_simps)
  qed
qed

lemma sorted_split_neg:
  "sorted (ws :: real list) \<Longrightarrow> take (length (filter (\<lambda>v. v < 0) ws)) ws = filter (\<lambda>v. v < 0) ws"
proof (induction ws)
  case Nil
  then show ?case by simp
next
  case (Cons x xs)
  show ?case
  proof (cases "x < 0")
    case True
    with Cons show ?thesis by simp
  next
    case False
    with Cons.prems have "\<forall>y \<in> set xs. \<not> y < 0" by auto
    then have "filter (\<lambda>v. v < 0) xs = []" by (simp add: filter_empty_conv)
    with False show ?thesis by simp
  qed
qed

lemma sorted_split_nonpos:
  "sorted (ws :: real list) \<Longrightarrow> take (length (filter (\<lambda>v. v \<le> 0) ws)) ws = filter (\<lambda>v. v \<le> 0) ws"
proof (induction ws)
  case Nil
  then show ?case by simp
next
  case (Cons x xs)
  show ?case
  proof (cases "x \<le> 0")
    case True
    with Cons show ?thesis by simp
  next
    case False
    with Cons.prems have "\<forall>y \<in> set xs. \<not> y \<le> 0" by auto
    then have "filter (\<lambda>v. v \<le> 0) xs = []" by (simp add: filter_empty_conv)
    with False show ?thesis by simp
  qed
qed

lemma initial_floor_filter:
  "initial_floor g vs = (\<Sum>v\<leftarrow>filter (\<lambda>v. v < 0) vs. v - g) + g / 2"
  unfolding initial_floor_def by (induction vs) auto

lemma sum_list_mset_cong:
  fixes f :: "real \<Rightarrow> real"
  assumes "mset ws = mset vs"
  shows "sum_list (map f ws) = sum_list (map f vs)"
proof -
  have "sum_list (map f ws) = sum_mset (image_mset f (mset ws))"
    by (metis mset_map sum_mset_sum_list)
  also have "\<dots> = sum_mset (image_mset f (mset vs))" using assms by simp
  also have "\<dots> = sum_list (map f vs)" by (metis mset_map sum_mset_sum_list)
  finally show ?thesis .
qed

lemma filter_mset_cong_list:
  assumes "mset ws = mset vs"
  shows "mset (filter P ws) = mset (filter P vs)"
  using assms by (metis mset_filter)

lemma argsort_values_mset:
  assumes "mset js = mset [0..<length vs]"
  shows "mset (map (\<lambda>i. vs ! i) js) = mset vs"
proof -
  have "mset (map (\<lambda>i. vs ! i) js) = image_mset (\<lambda>i. vs ! i) (mset js)" by simp
  also have "\<dots> = mset (map (\<lambda>i. vs ! i) [0..<length vs])" using assms by simp
  also have "\<dots> = mset vs" by (simp add: map_nth)
  finally show ?thesis .
qed

lemma argsort_sorts_indices:
  assumes "argsort_sorts E row"
  shows "set (argsort E row) = {0..<length row}" "length (argsort E row) = length row"
proof -
  from assms have m: "mset (argsort E row) = mset [0..<length row]"
    by (simp add: argsort_sorts_def)
  from m have "set_mset (mset (argsort E row)) = set_mset (mset [0..<length row])" by simp
  then show "set (argsort E row) = {0..<length row}" by simp
  from m have "size (mset (argsort E row)) = size (mset [0..<length row])" by simp
  then show "length (argsort E row) = length row" by simp
qed

lemma sort_row_returns:
  assumes "argsort_sorts E row" "length row = length chars"
  shows "sort_row E chars row = Inr (zip (sorted_values E row) (sorted_chars E chars row))"
  using argsort_sorts_indices[OF assms(1)] assms(2)
  by (simp add: sort_row_def sorted_values_def sorted_chars_def Let_def)

lemma sorted_values_facts:
  assumes "argsort_sorts E row"
  shows "sorted (sorted_values E row)" "mset (sorted_values E row) = mset row"
    "length (sorted_values E row) = length row"
proof -
  from assms show "sorted (sorted_values E row)"
    by (simp add: argsort_sorts_def sorted_values_def)
  from assms show "mset (sorted_values E row) = mset row"
    unfolding sorted_values_def argsort_sorts_def by (intro argsort_values_mset) simp
  from argsort_sorts_indices(2)[OF assms] show "length (sorted_values E row) = length row"
    by (simp add: sorted_values_def)
qed

lemma layout_row_stack:
  assumes "argsort_sorts E row" "length row = length (cs self)" "C self = length (cs self)"
  shows "layout_row E self p row =
           stack_glyphs E self p (initial_floor (vsep self) (sorted_values E row))
             (zip (sorted_values E row) (sorted_chars E (cs self) row))"
proof -
  have len: "length (sorted_values E row) = length row"
       "length (sorted_chars E (cs self) row) = length row"
    using argsort_sorts_indices(2)[OF assms(1)] by (simp_all add: sorted_values_def sorted_chars_def)
  then show ?thesis
    using sort_row_returns[OF assms(1,2)] assms(2,3) by (simp add: layout_row_def)
qed

lemma layout_row_returns:
  assumes "argsort_sorts E row" "length row = length (cs self)" "C self = length (cs self)"
    and "set (cs self) \<subseteq> fst ` set (rgba_dict self)"
  shows "\<exists>gs. layout_row E self p row = Inr gs"
proof -
  have "set (sorted_chars E (cs self) row) \<subseteq> set (cs self)"
    using argsort_sorts_indices(1)[OF assms(1)] assms(2)
    by (auto simp: sorted_chars_def)
  then have "snd ` set (zip (sorted_values E row) (sorted_chars E (cs self) row))
               \<subseteq> fst ` set (rgba_dict self)"
    using assms(4) by (force dest: set_zip_rightD)
  from stack_glyphs_returns[OF this] show ?thesis
    unfolding layout_row_stack[OF assms(1-3)] .
qed

text \<open>What the stack of one row looks like, glyph by glyph.\<close>

lemma layout_row_nth:
  assumes "argsort_sorts E row" "length row = length (cs self)" "C self = length (cs self)"
    and "layout_row E self p row = Inr gs" and "i < length row"
  shows "g_floor (gs ! i) = initial_floor (vsep self) (sorted_values E row)
            + (\<Sum>v\<leftarrow>take i (sorted_values E row). \<bar>v\<bar> + vsep self)"
    and "g_ceiling (gs ! i) = g_floor (gs ! i) + \<bar>sorted_values E row ! i\<bar>"
    and "g_c (gs ! i) = sorted_chars E (cs self) row ! i"
    and "g_p (gs ! i) = p"
    and "g_flip (gs ! i) = (sorted_values E row ! i < 0 \<and> flip_below self)"
proof -
  let ?ws = "sorted_values E row" and ?cs = "sorted_chars E (cs self) row"
  have len: "length ?ws = length row" "length ?cs = length row"
    using argsort_sorts_indices(2)[OF assms(1)] by (simp_all add: sorted_values_def sorted_chars_def)
  from assms(4) have st: "stack_glyphs E self p (initial_floor (vsep self) ?ws) (zip ?ws ?cs) = Inr gs"
    unfolding layout_row_stack[OF assms(1-3)] .
  from len assms(5) have i: "i < length (zip ?ws ?cs)" by simp
  from len have fst_zip: "map fst (zip ?ws ?cs) = ?ws" by (simp add: map_fst_zip)
  note n = stack_glyphs_nth[OF st i, unfolded fst_zip]
  from n show "g_floor (gs ! i) = initial_floor (vsep self) ?ws
            + (\<Sum>v\<leftarrow>take i ?ws. \<bar>v\<bar> + vsep self)" by simp
  from n i len show "g_ceiling (gs ! i) = g_floor (gs ! i) + \<bar>?ws ! i\<bar>" by simp
  from n i len show "g_c (gs ! i) = ?cs ! i" by simp
  from n show "g_p (gs ! i) = p" by simp
  from n i len show "g_flip (gs ! i) = (?ws ! i < 0 \<and> flip_below self)" by simp
qed

lemma layout_row_length:
  assumes "argsort_sorts E row" "length row = length (cs self)" "C self = length (cs self)"
    and "layout_row E self p row = Inr gs"
  shows "length gs = length row"
proof -
  let ?ws = "sorted_values E row" and ?cs = "sorted_chars E (cs self) row"
  have len: "length ?ws = length row" "length ?cs = length row"
    using argsort_sorts_indices(2)[OF assms(1)] by (simp_all add: sorted_values_def sorted_chars_def)
  from assms(4) have "stack_glyphs E self p (initial_floor (vsep self) ?ws) (zip ?ws ?cs) = Inr gs"
    unfolding layout_row_stack[OF assms(1-3)] .
  from stack_glyphs_length[OF this] len show ?thesis by simp
qed

lemma layout_row_next_floor:
  assumes "argsort_sorts E row" "length row = length (cs self)" "C self = length (cs self)"
    and "layout_row E self p row = Inr gs" and "Suc i < length row"
  shows "g_floor (gs ! Suc i) = g_ceiling (gs ! i) + vsep self"
proof -
  let ?ws = "sorted_values E row"
  have len: "length ?ws = length row" using sorted_values_facts(3)[OF assms(1)] .
  from assms(5) have i: "i < length row" by simp
  have "take (Suc i) ?ws = take i ?ws @ [?ws ! i]"
    using i len by (simp add: take_Suc_conv_app_nth)
  then show ?thesis
    using layout_row_nth(1)[OF assms(1-4) assms(5)] layout_row_nth(1,2)[OF assms(1-4) i]
    by simp
qed

lemma layout_row_ordered:
  assumes "argsort_sorts E row" "length row = length (cs self)" "C self = length (cs self)"
    and "layout_row E self p row = Inr gs" and "0 \<le> vsep self"
  shows "i < j \<Longrightarrow> j < length row \<Longrightarrow> g_ceiling (gs ! i) \<le> g_floor (gs ! j)"
proof (induction j)
  case 0
  then show ?case by simp
next
  case (Suc j)
  have step: "g_floor (gs ! Suc j) = g_ceiling (gs ! j) + vsep self"
    using layout_row_next_floor[OF assms(1-4) Suc.prems(2)] .
  show ?case
  proof (cases "i = j")
    case True
    with step assms(5) show ?thesis by simp
  next
    case False
    with Suc.prems have ij: "i < j" "j < length row" by simp_all
    from Suc.IH[OF ij] have "g_ceiling (gs ! i) \<le> g_floor (gs ! j)" .
    also have "\<dots> \<le> g_ceiling (gs ! j)"
      using layout_row_nth(2)[OF assms(1-4) ij(2)] by simp
    also have "\<dots> \<le> g_floor (gs ! Suc j)" using step assms(5) by simp
    finally show ?thesis .
  qed
qed

lemma layout_row_heights:
  assumes "argsort_sorts E row" "length row = length (cs self)" "C self = length (cs self)"
    and "layout_row E self p row = Inr gs"
  shows "(\<Sum>g\<leftarrow>gs. g_ceiling g - g_floor g) = (\<Sum>v\<leftarrow>row. \<bar>v\<bar>)"
proof -
  let ?ws = "sorted_values E row"
  have len: "length gs = length row" "length ?ws = length row"
    using layout_row_length[OF assms] sorted_values_facts(3)[OF assms(1)] by simp_all
  have "map (\<lambda>g. g_ceiling g - g_floor g) gs = map abs ?ws"
  proof (rule nth_equalityI)
    show "length (map (\<lambda>g. g_ceiling g - g_floor g) gs) = length (map abs ?ws)"
      using len by simp
  next
    fix i assume "i < length (map (\<lambda>g. g_ceiling g - g_floor g) gs)"
    then have i: "i < length row" using len by simp
    from layout_row_nth(2)[OF assms i] i len
    show "map (\<lambda>g. g_ceiling g - g_floor g) gs ! i = map abs ?ws ! i" by simp
  qed
  then have "(\<Sum>g\<leftarrow>gs. g_ceiling g - g_floor g) = (\<Sum>v\<leftarrow>?ws. \<bar>v\<bar>)" by simp
  also have "\<dots> = (\<Sum>v\<leftarrow>row. \<bar>v\<bar>)"
    by (rule sum_list_mset_cong) (rule sorted_values_facts(2)[OF assms(1)])
  finally show ?thesis .
qed

lemma length_filter_mset_cong:
  assumes "mset ws = mset vs"
  shows "length (filter P ws) = length (filter P vs)"
proof -
  have "mset (filter P ws) = mset (filter P vs)" using assms by (rule filter_mset_cong_list)
  then have "size (mset (filter P ws)) = size (mset (filter P vs))" by (rule arg_cong)
  then show ?thesis unfolding size_mset .
qed

lemma prefix_filter_iff:
  assumes "take (length (filter P ws)) ws = filter P ws" and "i < length ws"
  shows "P (ws ! i) \<longleftrightarrow> i < length (filter P ws)"
proof
  let ?m = "length (filter P ws)"
  have split: "filter P ws = filter P (take ?m ws) @ filter P (drop ?m ws)"
    by (metis append_take_drop_id filter_append)
  have "filter P (take ?m ws) = filter P ws" using assms(1) by simp
  with split have none: "filter P (drop ?m ws) = []" by simp
  show "i < ?m" if "P (ws ! i)"
  proof (rule ccontr)
    assume "\<not> i < ?m"
    then have m: "?m \<le> i" by simp
    then have "drop ?m ws ! (i - ?m) = ws ! i" using assms(2) by simp
    moreover have "i - ?m < length (drop ?m ws)" using assms(2) m by simp
    ultimately have "ws ! i \<in> set (drop ?m ws)" by (metis nth_mem)
    moreover from none have "\<forall>x \<in> set (drop ?m ws). \<not> P x"
      by (simp only: filter_empty_conv)
    ultimately show False using that by blast
  qed
next
  let ?m = "length (filter P ws)"
  assume "i < ?m"
  then have "take ?m ws ! i = ws ! i" by (rule nth_take)
  then have "ws ! i = filter P ws ! i" by (simp only: assms(1))
  moreover have "filter P ws ! i \<in> set (filter P ws)" using \<open>i < ?m\<close> by (rule nth_mem)
  ultimately have "ws ! i \<in> set (filter P ws)" by (simp only:)
  then show "P (ws ! i)" by (simp only: set_filter mem_Collect_eq)
qed

lemma neg_heights_cancel:
  "(\<Sum>v\<leftarrow>filter (\<lambda>v. v < 0) ws. v - g) + (\<Sum>v\<leftarrow>filter (\<lambda>v. v < 0) ws. \<bar>v\<bar> + g) = (0::real)"
  by (induction ws) auto

lemma nonpos_heights:
  "(\<Sum>v\<leftarrow>filter (\<lambda>v. v \<le> 0) ws. \<bar>v\<bar> + g) =
     (\<Sum>v\<leftarrow>filter (\<lambda>v. v < 0) ws. \<bar>v\<bar> + g) + real (length (filter (\<lambda>v. v = 0) ws)) * (g::real)"
  by (induction ws) (auto simp: algebra_simps)

lemma length_filter_nonpos:
  "length (filter (\<lambda>v. v \<le> (0::real)) ws) =
     length (filter (\<lambda>v. v < 0) ws) + length (filter (\<lambda>v. v = 0) ws)"
  by (induction ws) auto

text \<open>The floor of the glyph that follows the negative ones, and of the first positive one.\<close>

lemma floor_after_negatives:
  assumes "sorted ws"
  shows "initial_floor g ws + (\<Sum>v\<leftarrow>take (length (filter (\<lambda>v. v < 0) ws)) ws. \<bar>v\<bar> + g) = g / 2"
  using neg_heights_cancel[where ws=ws and g=g]
  by (simp add: sorted_split_neg[OF assms] initial_floor_filter)

lemma floor_after_nonpositives:
  assumes "sorted ws"
  shows "initial_floor g ws
           + (\<Sum>v\<leftarrow>take (length (filter (\<lambda>v. v < 0) ws) + length (filter (\<lambda>v. v = 0) ws)) ws. \<bar>v\<bar> + g)
         = g / 2 + real (length (filter (\<lambda>v. v = 0) ws)) * g"
proof -
  have "take (length (filter (\<lambda>v. v < 0) ws) + length (filter (\<lambda>v. v = 0) ws)) ws
          = filter (\<lambda>v. v \<le> 0) ws"
    using sorted_split_nonpos[OF assms] by (simp add: length_filter_nonpos)
  then show ?thesis
    using neg_heights_cancel[where ws=ws and g=g] by (simp add: nonpos_heights initial_floor_filter)
qed

lemma stable_argsort_sorts: "argsort_sorts example_env vs"
  by (simp add: argsort_sorts_def example_env_def stable_argsort_def)

lemma reversed_ties_argsort_sorts: "argsort_sorts reversed_ties_env vs"
  by (simp add: argsort_sorts_def reversed_ties_env_def example_env_def reversed_ties_argsort_def)

lemma zip_as_map_nth:
  assumes "length xs = length ys"
  shows "zip xs ys = map (\<lambda>i. (xs ! i, ys ! i)) [0..<length xs]"
  using assms by (intro nth_equalityI) simp_all

lemma zip_map_same:
  "zip (map f js) (map g js) = map (\<lambda>i. (f i, g i)) js"
  by (induction js) simp_all

lemma sorted_pairs_mset:
  assumes "argsort_sorts E row" "length row = length chars"
  shows "mset (zip (sorted_values E row) (sorted_chars E chars row)) = mset (zip row chars)"
proof -
  let ?js = "argsort E row"
  have "zip (sorted_values E row) (sorted_chars E chars row) = map (\<lambda>i. (row ! i, chars ! i)) ?js"
    unfolding sorted_values_def sorted_chars_def by (rule zip_map_same)
  then have "mset (zip (sorted_values E row) (sorted_chars E chars row))
               = image_mset (\<lambda>i. (row ! i, chars ! i)) (mset ?js)" by simp
  also have "\<dots> = image_mset (\<lambda>i. (row ! i, chars ! i)) (mset [0..<length row])"
    using assms(1) by (simp add: argsort_sorts_def)
  also have "\<dots> = mset (zip row chars)"
    by (simp add: zip_as_map_nth[OF assms(2)])
  finally show ?thesis .
qed

lemma argsort_unique_on_distinct:
  assumes "argsort_sorts E row" "argsort_sorts E' row" "distinct row"
  shows "argsort E' row = argsort E row"
proof -
  let ?f = "\<lambda>i. row ! i"
  have inj: "inj_on ?f {0..<length row}"
    using assms(3) by (auto simp: inj_on_def nth_eq_iff_index_eq)
  have facts: "distinct (map ?f (argsort D row)) \<and> sorted (map ?f (argsort D row))
                 \<and> set (map ?f (argsort D row)) = set row" if "argsort_sorts D row" for D
  proof -
    from that have m: "mset (argsort D row) = mset [0..<length row]"
      by (simp add: argsort_sorts_def)
    then have "distinct (argsort D row)" by (metis distinct_upt mset_eq_imp_distinct_iff)
    moreover have s: "set (argsort D row) = {0..<length row}"
      using argsort_sorts_indices(1)[OF that] .
    ultimately have "distinct (map ?f (argsort D row))" using inj by (simp add: distinct_map)
    moreover have "sorted (map ?f (argsort D row))" using that by (simp add: argsort_sorts_def)
    moreover have "set (map ?f (argsort D row)) = set row"
      using sorted_values_facts(2)[OF that] unfolding sorted_values_def by (metis set_mset_mset)
    ultimately show ?thesis by simp
  qed
  have "map ?f (argsort E' row) = map ?f (argsort E row)"
    using facts[OF assms(1)] facts[OF assms(2)] by (intro sorted_distinct_set_unique) simp_all
  moreover have "inj_on ?f (set (argsort E' row) \<union> set (argsort E row))"
    using inj argsort_sorts_indices(1)[OF assms(1)] argsort_sorts_indices(1)[OF assms(2)] by simp
  ultimately show ?thesis by (simp add: inj_on_map_eq_map)
qed

lemma layout_row_chars:
  assumes "argsort_sorts E row" "length row = length (cs self)" "C self = length (cs self)"
    and "layout_row E self p row = Inr gs"
  shows "map g_c gs = sorted_chars E (cs self) row"
proof (rule nth_equalityI)
  show "length (map g_c gs) = length (sorted_chars E (cs self) row)"
    using layout_row_length[OF assms] argsort_sorts_indices(2)[OF assms(1)]
    by (simp add: sorted_chars_def)
next
  fix i assume "i < length (map g_c gs)"
  then have i: "i < length row" using layout_row_length[OF assms] by simp
  then show "map g_c gs ! i = sorted_chars E (cs self) row ! i"
    using layout_row_nth(3)[OF assms i] layout_row_length[OF assms] by simp
qed

lemma example_logo_fields:
  "cs (example_logo chars sep) = chars" "C (example_logo chars sep) = length chars"
  "vsep (example_logo chars sep) = sep" "flip_below (example_logo chars sep) = True"
  "zorder (example_logo chars sep) = 0"
  "rgba_dict (example_logo chars sep) = map (\<lambda>c. (c, [1/2, 1/2, 1/2, 1])) chars"
  by (simp_all add: example_logo_def init_attributes_def example_args_def Let_def)

lemma example_logo_colours:
  "set (cs (example_logo chars sep)) \<subseteq> fst ` set (rgba_dict (example_logo chars sep))"
  by (force simp: example_logo_fields)

lemmas example_eval = layout_row_def sort_row_def example_env_def reversed_ties_env_def
  example_logo_fields stable_argsort_def reversed_ties_argsort_def upt_rec initial_floor_def
  Glyph_def Let_def

section \<open>The constructor and the drawn logo\<close>

lemmas init_eval = Logo_init_def init_attributes_def compute_characters_def df_loc_def
  example_matrix_def drawn_args_def undrawn_args_def dict_get_def chars_to_colors_dict_def
  tuple_def df_set_def draw_def update_ax_def glyph_list_def glyph_df_index_def
  glyph_df_columns_def first_seen_def List.map_filter_def blank_axes_def df_negate_def
  df_center_def row_mean_def example_glyphs_def undrawn_logo_def drawn_logo_def drawn_axes_def
  example_args_def

lemma Logo_init_undrawn: "Logo_init example_env undrawn_args = Inr undrawn_logo"
  by (simp add: init_eval example_eval)

lemma Logo_init_drawn: "Logo_init example_env drawn_args = Inr drawn_logo"
  by (simp add: init_eval example_eval)

lemma Logo_init_Inr:
  assumes "Logo_init E args = Inr l"
  obtains m d self1 where
    "arg_matrix args = MatrixObject m \<or> (\<exists>d0. arg_matrix args = PdDataFrame d0 \<and> Matrix_df E d0 = Inr m)"
    "get_color_dict E (colors (init_attributes args m)) (cs (init_attributes args m)) = Inr d"
    "compute_characters E ((init_attributes args m)\<lparr>rgba_dict := d\<rparr>) = Inr self1"
    "if arg_draw_now args then draw E None self1 = Ok l else l = self1"
  using assms unfolding Logo_init_def
  by (auto simp: Let_def split: matrix_arg.splits sum.splits if_splits result.splits)

lemma compute_characters_fields:
  assumes "compute_characters E self0 = Inr self1"
  shows "matrix_df self1 = matrix_df self0 \<and> L self1 = L self0 \<and> cs self1 = cs self0 \<and>
         C self1 = C self0 \<and> ps self1 = ps self0 \<and> colors self1 = colors self0 \<and>
         ax self1 = ax self0 \<and> negate self1 = negate self0 \<and> center self1 = center self0 \<and>
         flip_below self1 = flip_below self0 \<and> vsep self1 = vsep self0 \<and>
         zorder self1 = zorder self0 \<and> has_been_drawn self1 = has_been_drawn self0 \<and>
         rgba_dict self1 = rgba_dict self0"
  using assms unfolding compute_characters_def by (auto split: sum.splits)

lemma draw_fields:
  assumes "draw E new_ax self0 = Ok self1 \<or> draw E new_ax self0 = Raised e self1"
  shows "matrix_df self1 = matrix_df self0 \<and> L self1 = L self0 \<and> cs self1 = cs self0 \<and>
         C self1 = C self0 \<and> ps self1 = ps self0 \<and> colors self1 = colors self0 \<and>
         negate self1 = negate self0 \<and> center self1 = center self0 \<and>
         flip_below self1 = flip_below self0 \<and> vsep self1 = vsep self0 \<and>
         zorder self1 = zorder self0 \<and> has_been_drawn self1 \<and>
         rgba_dict self1 = rgba_dict self0 \<and> glyph_df self1 = glyph_df self0"
  using assms unfolding draw_def update_ax_def
  by (auto simp: Let_def split: option.splits sum.splits)

lemma Logo_init_fields:
  assumes "Logo_init E args = Inr l"
  obtains m where
    "arg_matrix args = MatrixObject m \<or> (\<exists>d0. arg_matrix args = PdDataFrame d0 \<and> Matrix_df E d0 = Inr m)"
    "matrix_df l = matrix_df (init_attributes args m)" "cs l = df_columns m"
    "C l = length (df_columns m)" "ps l = df_index m" "L l = length (df_index m)"
    "colors l = colors (init_attributes args m)" "vsep l = arg_vsep args"
    "flip_below l = arg_flip_below args" "zorder l = arg_zorder args"
    "get_color_dict E (colors l) (cs l) = Inr (rgba_dict l)"
    "has_been_drawn l = arg_draw_now args"
proof -
  from assms obtain m d self1 where
    m: "arg_matrix args = MatrixObject m \<or> (\<exists>d0. arg_matrix args = PdDataFrame d0 \<and> Matrix_df E d0 = Inr m)"
    and d: "get_color_dict E (colors (init_attributes args m)) (cs (init_attributes args m)) = Inr d"
    and c: "compute_characters E ((init_attributes args m)\<lparr>rgba_dict := d\<rparr>) = Inr self1"
    and dr: "if arg_draw_now args then draw E None self1 = Ok l else l = self1"
    by (rule Logo_init_Inr)
  note s1 = compute_characters_fields[OF c]
  have l: "matrix_df l = matrix_df self1 \<and> L l = L self1 \<and> cs l = cs self1 \<and>
         C l = C self1 \<and> ps l = ps self1 \<and> colors l = colors self1 \<and>
         flip_below l = flip_below self1 \<and> vsep l = vsep self1 \<and>
         zorder l = zorder self1 \<and> rgba_dict l = rgba_dict self1 \<and>
         has_been_drawn l = (arg_draw_now args \<or> has_been_drawn self1)"
  proof (cases "arg_draw_now args")
    case True
    with dr have "draw E None self1 = Ok l" by simp
    then have "draw E None self1 = Ok l \<or> draw E None self1 = Raised undefined l" by simp
    from draw_fields[OF this] True show ?thesis by simp
  next
    case False
    with dr show ?thesis by simp
  qed
  have attrs: "cs (init_attributes args m) = df_columns m"
    "C (init_attributes args m) = length (df_columns m)"
    "ps (init_attributes args m) = df_index m" "L (init_attributes args m) = length (df_index m)"
    "vsep (init_attributes args m) = arg_vsep args"
    "flip_below (init_attributes args m) = arg_flip_below args"
    "zorder (init_attributes args m) = arg_zorder args"
    "has_been_drawn (init_attributes args m) = False"
    by (simp_all add: init_attributes_def Let_def)
  show thesis
    by (rule that[OF m]) (use l s1 d attrs in simp_all)
qed

text \<open>
  C10.  With \<^verbatim>\<open>colors=None\<close> the colour scheme of the constructed Logo is looked up by
  the exact list of the matrix columns: \<open>classic\<close> for A, C, G, T and for A, C, G, U,
  \<open>hydrophobicity\<close> for the twenty letters ACDEFGHIKLMNPQRSTVWY in this order, and
  \<open>gray\<close> for every other list of columns; the colour table is resolved from it.
\<close>

theorem default_colour_scheme_by_columns:
  assumes "Logo_init E args = Inr l" and "arg_colors args = None"
  shows "colors l = ColorName
           (if cs l = [''A'', ''C'', ''G'', ''T''] \<or> cs l = [''A'', ''C'', ''G'', ''U'']
            then ''classic''
            else if cs l = [''A'', ''C'', ''D'', ''E'', ''F'', ''G'', ''H'', ''I'', ''K'', ''L'',
                            ''M'', ''N'', ''P'', ''Q'', ''R'', ''S'', ''T'', ''V'', ''W'', ''Y'']
            then ''hydrophobicity''
            else ''gray'') \<and>
         get_color_dict E (colors l) (cs l) = Inr (rgba_dict l) \<and>
         (\<exists>m. (arg_matrix args = MatrixObject m \<or>
                (\<exists>d0. arg_matrix args = PdDataFrame d0 \<and> Matrix_df E d0 = Inr m)) \<and>
              cs l = df_columns m)"
proof -
  from assms(1) obtain m where
    m: "arg_matrix args = MatrixObject m \<or> (\<exists>d0. arg_matrix args = PdDataFrame d0 \<and> Matrix_df E d0 = Inr m)"
    and f: "cs l = df_columns m" "colors l = colors (init_attributes args m)"
      "get_color_dict E (colors l) (cs l) = Inr (rgba_dict l)"
    by (rule Logo_init_fields)
  have "colors (init_attributes args m) =
          ColorName (dict_get chars_to_colors_dict (df_columns m) ''gray'')"
    using assms(2) by (simp add: init_attributes_def Let_def)
  with f have "colors l = ColorName (dict_get chars_to_colors_dict (cs l) ''gray'')" by simp
  then have "colors l = ColorName
           (if cs l = [''A'', ''C'', ''G'', ''T''] \<or> cs l = [''A'', ''C'', ''G'', ''U'']
            then ''classic''
            else if cs l = [''A'', ''C'', ''D'', ''E'', ''F'', ''G'', ''H'', ''I'', ''K'', ''L'',
                            ''M'', ''N'', ''P'', ''Q'', ''R'', ''S'', ''T'', ''V'', ''W'', ''Y'']
            then ''hydrophobicity''
            else ''gray'')"
    by (simp add: dict_get_def chars_to_colors_dict_def tuple_def)
  with m f show ?thesis by blast
qed

theorem default_colour_scheme_by_columns_witness:
  "arg_colors (example_args [[1, 2, 3, 4]] [''A'', ''C'', ''G'', ''T''] 0) = None \<and>
   (\<exists>l. Logo_init example_env (example_args [[1, 2, 3, 4]] [''A'', ''C'', ''G'', ''T''] 0) = Inr l \<and>
        colors l = ColorName ''classic'') \<and>
   (\<exists>l. Logo_init example_env (example_args [[1, 2, 3, 4]] [''C'', ''A'', ''G'', ''T''] 0) = Inr l \<and>
        colors l = ColorName ''gray'')"
proof -
  let ?a1 = "example_args [[1, 2, 3, 4]] [''A'', ''C'', ''G'', ''T''] 0"
  let ?a2 = "example_args [[1, 2, 3, 4]] [''C'', ''A'', ''G'', ''T''] 0"
  have n: "arg_colors ?a1 = None" "arg_colors ?a2 = None" by (simp_all add: example_args_def)
  have "\<exists>l. Logo_init example_env ?a1 = Inr l" by (simp add: init_eval example_eval)
  then obtain l1 where l1: "Logo_init example_env ?a1 = Inr l1" by blast
  have "\<exists>l. Logo_init example_env ?a2 = Inr l" by (simp add: init_eval example_eval)
  then obtain l2 where l2: "Logo_init example_env ?a2 = Inr l2" by blast
  have c1: "cs l1 = [''A'', ''C'', ''G'', ''T'']"
    using default_colour_scheme_by_columns[OF l1 n(1)] by (auto simp: example_args_def)
  have c2: "cs l2 = [''C'', ''A'', ''G'', ''T'']"
    using default_colour_scheme_by_columns[OF l2 n(2)] by (auto simp: example_args_def)
  have "colors l1 = ColorName ''classic''"
    using default_colour_scheme_by_columns[OF l1 n(1)] c1 by simp
  moreover have "colors l2 = ColorName ''gray''"
    using default_colour_scheme_by_columns[OF l2 n(2)] c2 by simp
  ultimately show ?thesis using n l1 l2 by blast
qed

lemma sum_list_subtract_const:
  "sum_list (map (\<lambda>v. v - c) row) = sum_list row - real (length row) * (c::real)"
  by (induction row) (simp_all add: algebra_simps)

lemma centred_row_sum: "sum_list (map (\<lambda>v. v - row_mean row) row) = 0"
  by (cases "row = []") (simp_all add: sum_list_subtract_const row_mean_def)

text \<open>
  C8.  When centring is requested, the matrix the Logo stores is the given matrix, negated
  first if negation is requested, with the mean of each row subtracted from every value of
  that row; every row of the stored matrix sums to zero.
\<close>

theorem centring_gives_zero_row_sums:
  assumes "Logo_init E args = Inr l" and "arg_center args"
  shows "\<exists>m. (arg_matrix args = MatrixObject m \<or>
               (\<exists>d0. arg_matrix args = PdDataFrame d0 \<and> Matrix_df E d0 = Inr m)) \<and>
           df_values (matrix_df l) =
             map (\<lambda>row. map (\<lambda>v. v - row_mean row) row)
                 (if arg_negate args then map (map uminus) (df_values m) else df_values m) \<and>
           (\<forall>row \<in> set (df_values (matrix_df l)). sum_list row = 0)"
proof -
  from assms(1) obtain m where
    m: "arg_matrix args = MatrixObject m \<or> (\<exists>d0. arg_matrix args = PdDataFrame d0 \<and> Matrix_df E d0 = Inr m)"
    and f: "matrix_df l = matrix_df (init_attributes args m)"
    by (rule Logo_init_fields)
  have v: "df_values (matrix_df l) =
             map (\<lambda>row. map (\<lambda>v. v - row_mean row) row)
                 (if arg_negate args then map (map uminus) (df_values m) else df_values m)"
    using assms(2) f by (simp add: init_attributes_def Let_def df_center_def df_negate_def)
  have "\<forall>row \<in> set (df_values (matrix_df l)). sum_list row = 0"
    unfolding v by (auto simp: centred_row_sum)
  with m v show ?thesis by blast
qed


theorem centring_gives_zero_row_sums_witness:
  "arg_center centred_args \<and>
   (\<exists>l. Logo_init example_env centred_args = Inr l \<and>
        df_values (matrix_df l) = [[1, - 1], [2, - 2], [2, - 2]] \<and>
        (\<forall>row \<in> set (df_values (matrix_df l)). sum_list row = 0))"
proof -
  have c: "arg_center centred_args" by (simp add: centred_args_def undrawn_args_def)
  have "\<exists>l. Logo_init example_env centred_args = Inr l"
    by (simp add: centred_args_def init_eval example_eval)
  then obtain l where l: "Logo_init example_env centred_args = Inr l" by blast
  from centring_gives_zero_row_sums[OF l c]
  have "df_values (matrix_df l) = [[1, - 1], [2, - 2], [2, - 2]]"
    and "\<forall>row \<in> set (df_values (matrix_df l)). sum_list row = 0"
    by (auto simp: centred_args_def undrawn_args_def example_matrix_def row_mean_def)
  with c l show ?thesis by blast
qed

text \<open>
  C7.  While the has-been-drawn flag is down, each of \<^verbatim>\<open>highlight_position\<close>,
  \<^verbatim>\<open>highlight_position_range\<close>, \<^verbatim>\<open>draw_baseline\<close>, \<^verbatim>\<open>style_xticks\<close> and \<^verbatim>\<open>style_spines\<close>
  raises the assertion error "Cannot call this function until Log0 has been drawn" and
  leaves the Logo as it was.
\<close>

theorem post_render_operations_require_drawn_logo:
  assumes "\<not> has_been_drawn self"
  shows "highlight_position p padding col edgecolor floor_arg ceiling_arg z kw self
           = Raised not_drawn self \<and>
         highlight_position_range pmin pmax padding col edgecolor floor_arg ceiling_arg z kw self
           = Raised not_drawn self \<and>
         draw_baseline z col linewidth kw self = Raised not_drawn self \<and>
         style_xticks E anchor spacing fmt rotation kw self = Raised not_drawn self \<and>
         style_spines spines visible linewidth col bounds self = Raised not_drawn self"
  using assms
  by (simp add: highlight_position_def highlight_position_range_def draw_baseline_def
      style_xticks_def style_spines_def)

theorem post_render_operations_require_drawn_logo_witness:
  "Logo_init example_env undrawn_args = Inr undrawn_logo \<and> \<not> has_been_drawn undrawn_logo \<and>
   highlight_position 1 0 (ColorName ''yellow'') None None None (- 2) [] undrawn_logo
     = Raised not_drawn undrawn_logo \<and>
   highlight_position_range 0 1 0 (ColorName ''yellow'') None None None (- 2) [] undrawn_logo
     = Raised not_drawn undrawn_logo \<and>
   draw_baseline (- 1) (ColorName ''black'') (1/2) [] undrawn_logo = Raised not_drawn undrawn_logo \<and>
   style_xticks example_env 0 1 ''%d'' 0 [] undrawn_logo = Raised not_drawn undrawn_logo \<and>
   style_spines [''top'', ''bottom'', ''left'', ''right''] True 1 (ColorName ''black'') None
     undrawn_logo = Raised not_drawn undrawn_logo"
proof -
  have h: "\<not> has_been_drawn undrawn_logo" by (simp add: undrawn_logo_def)
  from post_render_operations_require_drawn_logo[OF h] Logo_init_undrawn h
  show ?thesis by simp
qed

text \<open>
  C6.  On a drawn logo, with \<open>pmin \<le> pmax\<close>, \<open>padding \<ge> -0.5\<close> and floor below ceiling (each
  taken from the Axes limits when not given), \<^verbatim>\<open>highlight_position_range\<close> adds exactly one
  rectangle to the Axes, from \<open>pmin - 0.5 - padding\<close> to \<open>pmax + 0.5 + padding\<close> horizontally
  and from floor to ceiling vertically, and changes nothing else.  With \<open>pmin > pmax\<close> or
  \<open>padding < -0.5\<close> it raises an assertion error and adds nothing; when floor is below
  ceiling the error is the one of the violated ordering.
\<close>

theorem highlight_range_rectangle:
  assumes "has_been_drawn self" and "ax self = Some a"
  shows "(pmin \<le> pmax \<and> - (1/2) \<le> padding \<and>
            highlight_floor a floor_arg < highlight_ceiling a ceiling_arg \<longrightarrow>
          (\<exists>r. highlight_position_range pmin pmax padding col edgecolor floor_arg ceiling_arg z kw self
                  = Ok (self\<lparr>ax := Some (a\<lparr>ax_patches := ax_patches a @ [r]\<rparr>)\<rparr>) \<and>
               rect_x r = pmin - 1/2 - padding \<and>
               rect_x r + rect_width r = pmax + 1/2 + padding \<and>
               rect_y r = highlight_floor a floor_arg \<and>
               rect_y r + rect_height r = highlight_ceiling a ceiling_arg \<and>
               rect_facecolor r = col \<and> rect_edgecolor r = edgecolor \<and> rect_zorder r = z)) \<and>
         (pmax < pmin \<or> padding < - (1/2) \<longrightarrow>
          (\<exists>msg. highlight_position_range pmin pmax padding col edgecolor floor_arg ceiling_arg z kw self
                  = Raised (AssertionError msg) self)) \<and>
         (highlight_floor a floor_arg < highlight_ceiling a ceiling_arg \<and> pmax < pmin \<longrightarrow>
          highlight_position_range pmin pmax padding col edgecolor floor_arg ceiling_arg z kw self
            = Raised (AssertionError ''Error: pmin <= pmax not satisfied.'') self) \<and>
         (highlight_floor a floor_arg < highlight_ceiling a ceiling_arg \<and> pmin \<le> pmax \<and>
            padding < - (1/2) \<longrightarrow>
          highlight_position_range pmin pmax padding col edgecolor floor_arg ceiling_arg z kw self
            = Raised (AssertionError ''Error: padding >= -0.5 not satisfied'') self)"
  using assms
  by (cases "ax_ylim a")
     (auto simp: highlight_position_range_def highlight_floor_def highlight_ceiling_def Let_def
           split: option.splits)

theorem highlight_range_rectangle_witness:
  "has_been_drawn drawn_logo \<and> ax drawn_logo = Some drawn_axes \<and>
   (\<exists>r. highlight_position_range 2 2 0 (ColorName ''yellow'') None None None (- 2) [] drawn_logo
           = Ok (drawn_logo\<lparr>ax := Some (drawn_axes\<lparr>ax_patches := [r]\<rparr>)\<rparr>) \<and>
        rect_x r = 3/2 \<and> rect_x r + rect_width r = 5/2 \<and>
        rect_y r = - 2 \<and> rect_y r + rect_height r = 4) \<and>
   (\<exists>msg. highlight_position_range 2 1 0 (ColorName ''yellow'') None None None (- 2) [] drawn_logo
           = Raised (AssertionError msg) drawn_logo)"
proof -
  have h: "has_been_drawn drawn_logo" "ax drawn_logo = Some drawn_axes"
    by (simp_all add: drawn_logo_def)
  have y: "highlight_floor drawn_axes None = - 2" "highlight_ceiling drawn_axes None = 4"
    "ax_patches drawn_axes = []"
    by (simp_all add: highlight_floor_def highlight_ceiling_def drawn_axes_def blank_axes_def)
  note t = highlight_range_rectangle[OF h, where floor_arg = None and ceiling_arg = None
      and col = "ColorName ''yellow''" and edgecolor = None and z = "- 2" and kw = "[]"
      and padding = 0]
  from t[of 2 2] obtain r where
    "highlight_position_range 2 2 0 (ColorName ''yellow'') None None None (- 2) [] drawn_logo
           = Ok (drawn_logo\<lparr>ax := Some (drawn_axes\<lparr>ax_patches := [r]\<rparr>)\<rparr>)"
    "rect_x r = 3/2" "rect_x r + rect_width r = 5/2" "rect_y r = - 2"
    "rect_y r + rect_height r = 4"
    by (auto simp: y)
  moreover from t[of 2 1] have
    "\<exists>msg. highlight_position_range 2 1 0 (ColorName ''yellow'') None None None (- 2) [] drawn_logo
           = Raised (AssertionError msg) drawn_logo"
    by simp
  ultimately show ?thesis using h by blast
qed

text \<open>
  C5, as the code has it.  A sequence of the wrong length, or with a character that is not
  a column of the matrix, makes \<^verbatim>\<open>style_glyphs_in_sequence\<close> raise an assertion error
  before any glyph is touched and before anything is drawn.  The Logo is left as
  \<^verbatim>\<open>_update_ax\<close> has left it: unchanged when no Axes is passed, and with its Axes replaced
  by the passed one otherwise, since \<^verbatim>\<open>_update_ax\<close> runs before the two assertions.
\<close>

theorem invalid_sequence_raises_after_update_ax:
  assumes "length sequence \<noteq> L self \<or> (\<exists>c \<in> set sequence. [c] \<notin> set (cs self))"
  shows "(\<exists>msg. style_glyphs_in_sequence E sequence draw_now new_ax kw self
                  = Raised (AssertionError msg) (update_ax new_ax self)) \<and>
         update_ax new_ax self = (case new_ax of None \<Rightarrow> self | Some a' \<Rightarrow> self\<lparr>ax := Some a'\<rparr>) \<and>
         glyph_df (update_ax new_ax self) = glyph_df self \<and>
         has_been_drawn (update_ax new_ax self) = has_been_drawn self \<and>
         (new_ax = None \<longrightarrow> update_ax new_ax self = self)"
  using assms
  by (auto simp: style_glyphs_in_sequence_def update_ax_def Let_def split: option.splits)

theorem invalid_sequence_raises_after_update_ax_witness:
  "length ''AC'' \<noteq> L undrawn_logo \<and>
   style_glyphs_in_sequence example_env ''AC'' True None [(''flip'', Flag True)] undrawn_logo
     = Raised (AssertionError ''Error: sequence to highlight does not have same length as logo.'')
         undrawn_logo"
proof -
  have h: "length ''AC'' \<noteq> L undrawn_logo \<or> (\<exists>c \<in> set ''AC''. [c] \<notin> set (cs undrawn_logo))"
    by (simp add: undrawn_logo_def)
  have "style_glyphs_in_sequence example_env ''AC'' True None [(''flip'', Flag True)] undrawn_logo
     = Raised (AssertionError ''Error: sequence to highlight does not have same length as logo.'')
         (update_ax None undrawn_logo)"
    by (simp add: style_glyphs_in_sequence_def update_ax_def undrawn_logo_def)
  with invalid_sequence_raises_after_update_ax[OF h, of example_env True None "[(''flip'', Flag True)]"]
  show ?thesis by (simp add: undrawn_logo_def)
qed

theorem invalid_sequence_replaces_axes:
  "style_glyphs_in_sequence example_env ''AC'' True (Some blank_axes) [(''flip'', Flag True)]
     undrawn_logo
     = Raised (AssertionError ''Error: sequence to highlight does not have same length as logo.'')
         (undrawn_logo\<lparr>ax := Some blank_axes\<rparr>) \<and>
   ax (undrawn_logo\<lparr>ax := Some blank_axes\<rparr>) \<noteq> ax undrawn_logo"
  by (simp add: style_glyphs_in_sequence_def update_ax_def undrawn_logo_def)

section \<open>Tick positions\<close>

lemma py_min_Min: "xs \<noteq> [] \<Longrightarrow> py_min xs = Inr (Min (set xs))"
  by (cases xs) (simp_all add: Min.set_eq_fold[symmetric] del: set_simps)

lemma py_max_Max: "xs \<noteq> [] \<Longrightarrow> py_max xs = Inr (Max (set xs))"
  by (cases xs) (simp_all add: Max.set_eq_fold[symmetric] del: set_simps)

lemma np_mod_zero_iff:
  "np_mod x s = Some 0 \<longleftrightarrow> s \<noteq> 0 \<and> (\<exists>k::int. x = of_int k * s)"
proof (cases "s = 0")
  case True
  then show ?thesis by (simp add: np_mod_def)
next
  case False
  have "x - s * of_int \<lfloor>x / s\<rfloor> = 0 \<longleftrightarrow> (\<exists>k::int. x = of_int k * s)"
  proof
    assume "x - s * of_int \<lfloor>x / s\<rfloor> = 0"
    then have "x = of_int \<lfloor>x / s\<rfloor> * s" by (simp add: mult.commute)
    then show "\<exists>k::int. x = of_int k * s" ..
  next
    assume "\<exists>k::int. x = of_int k * s"
    then obtain k :: int where k: "x = of_int k * s" ..
    with False have "x / s = of_int k" by simp
    then have "\<lfloor>x / s\<rfloor> = k" by simp
    with k show "x - s * of_int \<lfloor>x / s\<rfloor> = 0" by (simp add: mult.commute)
  qed
  with False show ?thesis by (simp add: np_mod_def)
qed

lemma set_np_arange: "set (np_arange start stop) = {start + real i |i. real i < stop - start}"
proof -
  have "i < nat \<lceil>stop - start\<rceil> \<longleftrightarrow> real i < stop - start" for i :: nat
  proof -
    have "i < nat \<lceil>stop - start\<rceil> \<longleftrightarrow> int i < \<lceil>stop - start\<rceil>" by linarith
    also have "\<dots> \<longleftrightarrow> of_int (int i) < stop - start" by (rule less_ceiling_iff)
    finally show ?thesis by simp
  qed
  then show ?thesis by (auto simp: np_arange_def)
qed

lemma np_arange_integers:
  assumes "lo \<in> \<int>" "hi \<in> \<int>"
  shows "set (np_arange lo (hi + 1)) = {p. p \<in> \<int> \<and> lo \<le> p \<and> p \<le> hi}"
proof -
  from assms obtain l h :: int where lh: "lo = of_int l" "hi = of_int h"
    by (auto elim!: Ints_cases)
  show ?thesis
  proof (rule set_eqI, rule iffI)
    fix p assume "p \<in> set (np_arange lo (hi + 1))"
    then obtain i :: nat where i: "p = lo + real i" "real i < hi + 1 - lo"
      by (auto simp: set_np_arange)
    from i(1) lh have pz: "p = of_int (l + int i)" by simp
    from i(2) lh have "real_of_int (int i) < real_of_int (h + 1 - l)" by simp
    then have "int i < h + 1 - l" by (simp only: of_int_less_iff)
    then have "l + int i \<le> h" by simp
    then have "real_of_int (l + int i) \<le> real_of_int h" by (simp only: of_int_le_iff)
    with pz lh i(1) show "p \<in> {p. p \<in> \<int> \<and> lo \<le> p \<and> p \<le> hi}" by simp
  next
    fix p assume "p \<in> {p. p \<in> \<int> \<and> lo \<le> p \<and> p \<le> hi}"
    then obtain q :: int where q: "p = of_int q" and b: "lo \<le> p" "p \<le> hi"
      by (auto elim!: Ints_cases)
    from b q lh have "l \<le> q" "q \<le> h" by simp_all
    then have "p = lo + real (nat (q - l))" "real (nat (q - l)) < hi + 1 - lo"
      using q lh by simp_all
    then show "p \<in> set (np_arange lo (hi + 1))" unfolding set_np_arange by blast
  qed
qed

section \<open>The gap in the constructor\<close>

text \<open>The layout reads only these attributes of the Logo.\<close>

lemma stack_glyphs_cong:
  assumes "rgba_dict s' = rgba_dict s" "vsep s' = vsep s" "flip_below s' = flip_below s"
    "zorder s' = zorder s"
  shows "stack_glyphs E s' p f pairs = stack_glyphs E s p f pairs"
  using assms by (induction pairs arbitrary: f) (auto simp: Let_def split: option.splits)

lemma compute_rows_cong:
  assumes "matrix_df s' = matrix_df s" "cs s' = cs s" "C s' = C s"
    "rgba_dict s' = rgba_dict s" "vsep s' = vsep s" "flip_below s' = flip_below s"
    "zorder s' = zorder s"
  shows "compute_rows E s' positions = compute_rows E s positions"
proof -
  have "layout_row E s' p row = layout_row E s p row" for p row
    using assms stack_glyphs_cong[of s' s] by (auto simp: layout_row_def split: sum.splits)
  with assms(1) show ?thesis
    by (induction positions) (auto split: option.splits sum.splits)
qed

text \<open>Whether the layout raises, and how many glyphs it makes, does not depend on the gap.\<close>

lemma stack_glyphs_shape:
  assumes "rgba_dict s' = rgba_dict s"
  shows "map_sum id length (stack_glyphs E s' p f' pairs)
           = map_sum id length (stack_glyphs E s p f pairs)"
proof (induction pairs arbitrary: f f')
  case Nil
  then show ?case by simp
next
  case (Cons vc pairs)
  obtain v c where vc: "vc = (v, c)" by (cases vc)
  show ?case
  proof (cases "map_of (rgba_dict s) c")
    case None
    with assms vc show ?thesis by simp
  next
    case (Some rgba)
    from Cons.IH[of "f' + \<bar>v\<bar> + vsep s'" "f + \<bar>v\<bar> + vsep s"]
    show ?thesis using Some assms vc
      by (cases "stack_glyphs E s' p (f' + \<bar>v\<bar> + vsep s') pairs";
          cases "stack_glyphs E s p (f + \<bar>v\<bar> + vsep s) pairs") (simp_all add: Let_def)
  qed
qed

lemma compute_rows_shape:
  assumes "matrix_df s' = matrix_df s" "cs s' = cs s" "C s' = C s" "rgba_dict s' = rgba_dict s"
  shows "map_sum id length (compute_rows E s' positions)
           = map_sum id length (compute_rows E s positions)"
proof -
  have row: "map_sum id length (layout_row E s' p row) = map_sum id length (layout_row E s p row)"
    for p row
    using assms(2,3) stack_glyphs_shape[OF assms(4)]
    by (cases "sort_row E (cs s) row") (simp_all add: layout_row_def)
  show ?thesis
  proof (induction positions)
    case Nil
    then show ?case by simp
  next
    case (Cons p rest)
    show ?case
    proof (cases "df_loc (matrix_df s) p")
      case None
      with assms(1) show ?thesis by simp
    next
      case (Some r)
      from row[of p r] Cons.IH show ?thesis using Some assms(1)
        by (cases "layout_row E s' p r"; cases "layout_row E s p r";
            cases "compute_rows E s' rest"; cases "compute_rows E s rest") simp_all
    qed
  qed
qed

lemma df_set_nonempty: "df_set g df \<noteq> []"
  by (cases df) (simp_all add: df_set_def)

lemma foldl_df_set_empty_iff:
  "foldl (\<lambda>df g. df_set g df) acc gs = [] \<longleftrightarrow> acc = [] \<and> gs = []"
  by (induction gs arbitrary: acc) (simp_all add: df_set_nonempty)

lemma first_seen_set: "set (first_seen xs) = set xs"
  by (simp add: first_seen_def)

lemma glyph_list_empty_iff: "glyph_list s = [] \<longleftrightarrow> glyph_df s = []"
proof
  assume "glyph_df s = []"
  then show "glyph_list s = []"
    by (simp add: glyph_list_def glyph_df_index_def first_seen_def)
next
  assume e: "glyph_list s = []"
  show "glyph_df s = []"
  proof (rule ccontr)
    assume "glyph_df s \<noteq> []"
    then obtain p c g where pc: "((p, c), g) \<in> set (glyph_df s)"
      by (cases "glyph_df s") auto
    then have "p \<in> set (glyph_df_index s)" "c \<in> set (glyph_df_columns s)"
      by (force simp: glyph_df_index_def glyph_df_columns_def first_seen_set)+
    moreover from pc obtain g' where "map_of (glyph_df s) (p, c) = Some g'"
      by (metis image_eqI fst_conv map_of_eq_None_iff not_Some_eq)
    ultimately have "g' \<in> set (glyph_list s)"
      by (force simp: glyph_list_def List.map_filter_def)
    with e show False by simp
  qed
qed

lemma draw_outcome:
  "(glyph_list (update_ax new_ax s) = [] \<longrightarrow>
      (\<exists>s'. draw E new_ax s = Raised (ValueError ''min() arg is an empty sequence'') s')) \<and>
   (glyph_list (update_ax new_ax s) \<noteq> [] \<longrightarrow> (\<exists>s'. draw E new_ax s = Ok s'))"
  by (cases "glyph_list (update_ax new_ax s)") (simp_all add: draw_def Let_def)

lemma draw_error_iff:
  "(\<exists>s'. draw E None s = Raised e s') \<longleftrightarrow>
     glyph_df s = [] \<and> e = ValueError ''min() arg is an empty sequence''"
proof -
  have u: "update_ax None s = s" by (simp add: update_ax_def)
  show ?thesis
  proof (cases "glyph_df s = []")
    case True
    then have "glyph_list s = []" by (simp add: glyph_list_empty_iff)
    with draw_outcome[of None s E] u True show ?thesis by auto
  next
    case False
    then have "glyph_list s \<noteq> []" by (simp add: glyph_list_empty_iff)
    with draw_outcome[of None s E] u False show ?thesis by auto
  qed
qed

lemma Logo_init_after_matrix:
  assumes "(case arg_matrix args of
              OtherObject \<Rightarrow>
                Inl (AssertionError
                  ''Error: matrix must be either a pd.DataFrame object or a Matrix object'')
            | PdDataFrame d \<Rightarrow> Matrix_df E d
            | MatrixObject d \<Rightarrow> Inr d) = Inr m"
    and "get_color_dict E (colors (init_attributes args m)) (cs (init_attributes args m)) = Inr d"
  shows "Logo_init E args = Inl e \<longleftrightarrow>
           (case map_sum id length
                   (compute_rows E ((init_attributes args m)\<lparr>rgba_dict := d\<rparr>) (df_index m)) of
              Inl e' \<Rightarrow> e = e'
            | Inr n \<Rightarrow> arg_draw_now args \<and> n = 0 \<and>
                       e = ValueError ''min() arg is an empty sequence'')"
proof -
  let ?s = "(init_attributes args m)\<lparr>rgba_dict := d\<rparr>"
  have ps: "ps ?s = df_index m" by (simp add: init_attributes_def Let_def)
  show ?thesis
  proof (cases "compute_rows E ?s (df_index m)")
    case (Inl e')
    with assms ps show ?thesis
      by (auto simp: Logo_init_def Let_def compute_characters_def)
  next
    case (Inr gs)
    let ?s1 = "?s\<lparr>glyph_df := foldl (\<lambda>df g. df_set g df) [] gs\<rparr>"
    have c: "compute_characters E ?s = Inr ?s1"
      using Inr ps by (simp add: compute_characters_def)
    have e: "glyph_df ?s1 = [] \<longleftrightarrow> length gs = 0"
      by (simp add: foldl_df_set_empty_iff)
    show ?thesis
    proof (cases "arg_draw_now args")
      case False
      with assms c Inr show ?thesis by (simp add: Logo_init_def Let_def)
    next
      case True
      have "Logo_init E args = Inl e \<longleftrightarrow> (\<exists>s'. draw E None ?s1 = Raised e s')"
        using assms c True
        by (cases "draw E None ?s1") (simp_all add: Logo_init_def Let_def)
      also have "\<dots> \<longleftrightarrow> length gs = 0 \<and> e = ValueError ''min() arg is an empty sequence''"
        unfolding draw_error_iff e ..
      finally show ?thesis using Inr True by simp
    qed
  qed
qed

lemma init_attributes_gap:
  "init_attributes (args\<lparr>arg_vsep := g\<rparr>) m = (init_attributes args m)\<lparr>vsep := g\<rparr>"
  by (simp add: init_attributes_def Let_def)

lemma Logo_init_error_gap:
  "Logo_init E (args\<lparr>arg_vsep := g\<rparr>) = Inl e \<longleftrightarrow> Logo_init E args = Inl e"
proof -
  let ?args = "args\<lparr>arg_vsep := g\<rparr>"
  let ?R = "case arg_matrix args of
              OtherObject \<Rightarrow>
                Inl (AssertionError
                  ''Error: matrix must be either a pd.DataFrame object or a Matrix object'')
            | PdDataFrame d \<Rightarrow> Matrix_df E d
            | MatrixObject d \<Rightarrow> Inr d"
  show ?thesis
  proof (cases ?R)
    case (Inl e')
    then show ?thesis by (simp add: Logo_init_def)
  next
    case (Inr m)
    let ?s = "init_attributes args m"
    have a: "colors (init_attributes ?args m) = colors ?s" "cs (init_attributes ?args m) = cs ?s"
      by (simp_all add: init_attributes_gap)
    show ?thesis
    proof (cases "get_color_dict E (colors ?s) (cs ?s)")
      case (Inl e')
      with Inr a show ?thesis by (simp add: Logo_init_def Let_def)
    next
      case d: (Inr d)
      have R': "(case arg_matrix ?args of
              OtherObject \<Rightarrow>
                Inl (AssertionError
                  ''Error: matrix must be either a pd.DataFrame object or a Matrix object'')
            | PdDataFrame d \<Rightarrow> Matrix_df E d
            | MatrixObject d \<Rightarrow> Inr d) = Inr m" using Inr by simp
      have d': "get_color_dict E (colors (init_attributes ?args m)) (cs (init_attributes ?args m)) = Inr d"
        using d a by simp
      have "map_sum id length (compute_rows E ((init_attributes ?args m)\<lparr>rgba_dict := d\<rparr>) (df_index m))
              = map_sum id length (compute_rows E (?s\<lparr>rgba_dict := d\<rparr>) (df_index m))"
        by (rule compute_rows_shape) (simp_all add: init_attributes_gap)
      then show ?thesis
        unfolding Logo_init_after_matrix[OF R' d'] Logo_init_after_matrix[OF Inr d]
        by (auto split: sum.splits)
    qed
  qed
qed

text \<open>
  C4, as the code has it.  The constructor does not validate \<^verbatim>\<open>vsep\<close>: whatever the gap,
  negative or not, it raises exactly the errors it raises with any other gap (those of the
  matrix type, of the collaborators and of the layout and drawing), and when it returns,
  the gap is stored as given and the glyphs are the layout computed with it.
\<close>

theorem gap_is_not_validated:
  "(Logo_init E (args\<lparr>arg_vsep := g\<rparr>) = Inl e \<longleftrightarrow> Logo_init E (args\<lparr>arg_vsep := g'\<rparr>) = Inl e) \<and>
   (\<forall>l. Logo_init E (args\<lparr>arg_vsep := g\<rparr>) = Inr l \<longrightarrow>
        vsep l = g \<and>
        (\<exists>gs. compute_rows E l (ps l) = Inr gs \<and>
              glyph_df l = foldl (\<lambda>df x. df_set x df) [] gs))"
proof (intro conjI allI impI)
  show "Logo_init E (args\<lparr>arg_vsep := g\<rparr>) = Inl e \<longleftrightarrow> Logo_init E (args\<lparr>arg_vsep := g'\<rparr>) = Inl e"
    by (simp add: Logo_init_error_gap)
next
  fix l assume l: "Logo_init E (args\<lparr>arg_vsep := g\<rparr>) = Inr l"
  then show "vsep l = g" by (rule Logo_init_fields) simp
next
  fix l assume l: "Logo_init E (args\<lparr>arg_vsep := g\<rparr>) = Inr l"
  let ?args = "args\<lparr>arg_vsep := g\<rparr>"
  from l obtain m d self1 where
    c: "compute_characters E ((init_attributes ?args m)\<lparr>rgba_dict := d\<rparr>) = Inr self1"
    and dr: "if arg_draw_now ?args then draw E None self1 = Ok l else l = self1"
    by (rule Logo_init_Inr)
  let ?s = "(init_attributes ?args m)\<lparr>rgba_dict := d\<rparr>"
  from c obtain gs where gs: "compute_rows E ?s (ps ?s) = Inr gs"
    and s1: "self1 = ?s\<lparr>glyph_df := foldl (\<lambda>df x. df_set x df) [] gs\<rparr>"
    by (auto simp: compute_characters_def split: sum.splits)
  have same: "matrix_df l = matrix_df ?s \<and> cs l = cs ?s \<and> C l = C ?s \<and> ps l = ps ?s \<and>
              rgba_dict l = rgba_dict ?s \<and> vsep l = vsep ?s \<and> flip_below l = flip_below ?s \<and>
              zorder l = zorder ?s \<and> glyph_df l = glyph_df self1"
  proof (cases "arg_draw_now ?args")
    case True
    with dr have "draw E None self1 = Ok l \<or> draw E None self1 = Raised undefined l" by simp
    from draw_fields[OF this] s1 show ?thesis by simp
  next
    case False
    with dr s1 show ?thesis by simp
  qed
  then have "compute_rows E l (ps l) = compute_rows E ?s (ps ?s)"
    using compute_rows_cong[of l ?s E "ps ?s"] by simp
  with gs same s1
  show "\<exists>gs. compute_rows E l (ps l) = Inr gs \<and> glyph_df l = foldl (\<lambda>df x. df_set x df) [] gs"
    by simp
qed

lemma Logo_init_negative_gap: "Logo_init example_env negative_gap_args = Inr negative_gap_logo"
  by (simp add: negative_gap_args_def negative_gap_logo_def negative_gap_glyphs_def
      init_eval example_eval)

theorem gap_is_not_validated_witness:
  "Logo_init example_env (negative_gap_args\<lparr>arg_vsep := - 1\<rparr>) = Inr negative_gap_logo \<and>
   (\<forall>e. Logo_init example_env (negative_gap_args\<lparr>arg_vsep := 0\<rparr>) \<noteq> Inl e) \<and>
   vsep negative_gap_logo = - 1 \<and>
   (\<exists>gs. compute_rows example_env negative_gap_logo (ps negative_gap_logo) = Inr gs \<and>
         glyph_df negative_gap_logo = foldl (\<lambda>df x. df_set x df) [] gs)"
proof -
  have a: "negative_gap_args\<lparr>arg_vsep := - 1\<rparr> = negative_gap_args"
    by (simp add: negative_gap_args_def example_args_def)
  have l: "Logo_init example_env (negative_gap_args\<lparr>arg_vsep := - 1\<rparr>) = Inr negative_gap_logo"
    unfolding a by (rule Logo_init_negative_gap)
  note t = gap_is_not_validated[where E = example_env and args = negative_gap_args
      and g = "- 1" and g' = 0]
  from t l have "\<forall>e. Logo_init example_env (negative_gap_args\<lparr>arg_vsep := 0\<rparr>) \<noteq> Inl e"
    by simp
  moreover from t l have "vsep negative_gap_logo = - 1 \<and>
     (\<exists>gs. compute_rows example_env negative_gap_logo (ps negative_gap_logo) = Inr gs \<and>
         glyph_df negative_gap_logo = foldl (\<lambda>df x. df_set x df) [] gs)" by blast
  ultimately show ?thesis using l by blast
qed

theorem negative_gap_accepted_by_constructor:
  "Logo_init example_env negative_gap_args = Inr negative_gap_logo \<and>
   arg_vsep negative_gap_args = - 1 \<and> vsep negative_gap_logo = - 1 \<and>
   map snd (glyph_df negative_gap_logo) =
     [Glyph (19/20) 0 ''A'' (- 1/2) (1/2) [1/2, 1/2, 1/2] False 0,
      Glyph (19/20) 0 ''C'' (- 1/2) (3/2) [1/2, 1/2, 1/2] False 0]"
  by (simp add: Logo_init_negative_gap)
     (simp add: negative_gap_args_def example_args_def negative_gap_logo_def
        negative_gap_glyphs_def)

section \<open>The glyphs of a constructed Logo\<close>

lemma stack_glyphs_position:
  "stack_glyphs E s p f pairs = Inr gs \<Longrightarrow> \<forall>g \<in> set gs. g_p g = p"
proof (induction pairs arbitrary: f gs)
  case Nil
  then show ?case by simp
next
  case (Cons vc pairs)
  obtain v c where vc: "vc = (v, c)" by (cases vc)
  from Cons.prems[unfolded vc stack_glyphs_Cons] obtain rgba gs' where
    rest: "stack_glyphs E s p (f + \<bar>v\<bar> + vsep s) pairs = Inr gs'"
    and gs: "gs = Glyph (glyph_width E) p c f (f + \<bar>v\<bar>) (take 3 rgba) (v < 0 \<and> flip_below s) (zorder s) # gs'"
    by auto
  from Cons.IH[OF rest] gs show ?case by (simp add: Glyph_def)
qed

lemma layout_row_position:
  "layout_row E s p row = Inr gs \<Longrightarrow> \<forall>g \<in> set gs. g_p g = p"
  unfolding layout_row_def by (auto split: sum.splits dest: stack_glyphs_position)

lemma df_loc_in_values: "df_loc df p = Some row \<Longrightarrow> row \<in> set (df_values df)"
  unfolding df_loc_def by (auto dest!: map_of_SomeD set_zip_rightD)

lemma compute_rows_positions:
  "compute_rows E s positions = Inr gs \<Longrightarrow> \<forall>g \<in> set gs. g_p g \<in> set positions"
proof (induction positions arbitrary: gs)
  case Nil
  then show ?case by simp
next
  case (Cons q rest)
  from Cons.prems obtain row gq gs' where
    "layout_row E s q row = Inr gq" "compute_rows E s rest = Inr gs'" "gs = gq @ gs'"
    by (auto split: option.splits sum.splits)
  with Cons.IH[of gs'] layout_row_position[of E s q row gq] show ?case by auto
qed

text \<open>The glyphs made for one position are the stack of its row.\<close>

lemma compute_rows_at:
  assumes "compute_rows E s positions = Inr gs" "distinct positions" "p \<in> set positions"
  shows "\<exists>row. df_loc (matrix_df s) p = Some row \<and>
               layout_row E s p row = Inr (filter (\<lambda>g. g_p g = p) gs)"
  using assms
proof (induction positions arbitrary: gs)
  case Nil
  then show ?case by simp
next
  case (Cons q rest)
  from Cons.prems(1) obtain row gq gs' where
    row: "df_loc (matrix_df s) q = Some row" and gq: "layout_row E s q row = Inr gq"
    and gs': "compute_rows E s rest = Inr gs'" and gs: "gs = gq @ gs'"
    by (auto split: option.splits sum.splits)
  have q: "\<forall>g \<in> set gq. g_p g = q" by (rule layout_row_position[OF gq])
  have r: "\<forall>g \<in> set gs'. g_p g \<in> set rest" by (rule compute_rows_positions[OF gs'])
  show ?case
  proof (cases "p = q")
    case True
    with Cons.prems(2) have "p \<notin> set rest" by simp
    with r have "filter (\<lambda>g. g_p g = p) gs' = []" by (auto simp: filter_empty_conv)
    moreover from q True have "filter (\<lambda>g. g_p g = p) gq = gq" by (simp add: filter_id_conv)
    ultimately show ?thesis using row gq gs True by simp
  next
    case False
    with Cons.prems have "distinct rest" "p \<in> set rest" by simp_all
    from Cons.IH[OF gs' this] obtain row' where
      "df_loc (matrix_df s) p = Some row'"
      "layout_row E s p row' = Inr (filter (\<lambda>g. g_p g = p) gs')" by blast
    moreover from q False have "filter (\<lambda>g. g_p g = p) gq = []" by (auto simp: filter_empty_conv)
    ultimately show ?thesis using gs by simp
  qed
qed

lemma sorted_chars_distinct:
  assumes "argsort_sorts E row" "length row = length chars" "distinct chars"
  shows "distinct (sorted_chars E chars row)"
proof -
  from assms(1) have "mset (argsort E row) = mset [0..<length row]" by (simp add: argsort_sorts_def)
  then have d: "distinct (argsort E row)" by (metis distinct_upt mset_eq_imp_distinct_iff)
  have "inj_on (\<lambda>i. chars ! i) (set (argsort E row))"
    using argsort_sorts_indices(1)[OF assms(1)] assms(2,3)
    by (auto simp: inj_on_def nth_eq_iff_index_eq)
  with d show ?thesis by (simp add: sorted_chars_def distinct_map)
qed

lemma compute_rows_keys_distinct:
  assumes "compute_rows E s positions = Inr gs" "distinct positions" "distinct (cs s)"
    "C s = length (cs s)"
    "\<forall>row \<in> set (df_values (matrix_df s)). length row = length (cs s) \<and> argsort_sorts E row"
  shows "distinct (map (\<lambda>g. (g_p g, g_c g)) gs)"
  using assms(1,2)
proof (induction positions arbitrary: gs)
  case Nil
  then show ?case by simp
next
  case (Cons q rest)
  from Cons.prems(1) obtain row gq gs' where
    row: "df_loc (matrix_df s) q = Some row" and gq: "layout_row E s q row = Inr gq"
    and gs': "compute_rows E s rest = Inr gs'" and gs: "gs = gq @ gs'"
    by (auto split: option.splits sum.splits)
  from df_loc_in_values[OF row] assms(5)
  have r: "length row = length (cs s)" "argsort_sorts E row" by auto
  have "map g_c gq = sorted_chars E (cs s) row" by (rule layout_row_chars[OF r(2,1) assms(4) gq])
  then have "distinct (map g_c gq)" using sorted_chars_distinct[OF r(2,1) assms(3)] by simp
  then have dq: "distinct (map (\<lambda>g. (g_p g, g_c g)) gq)"
    by (simp add: distinct_map inj_on_def)
  from Cons.prems(2) have dr: "distinct (map (\<lambda>g. (g_p g, g_c g)) gs')"
    using Cons.IH[OF gs'] by simp
  have "\<forall>g \<in> set gq. g_p g = q" by (rule layout_row_position[OF gq])
  moreover have "\<forall>g \<in> set gs'. g_p g \<in> set rest" by (rule compute_rows_positions[OF gs'])
  moreover from Cons.prems(2) have "q \<notin> set rest" by simp
  ultimately have "(\<lambda>g. (g_p g, g_c g)) ` set gq \<inter> (\<lambda>g. (g_p g, g_c g)) ` set gs' = {}"
    by auto
  with dq dr gs show ?case by simp
qed

lemma update_new_key:
  "k \<notin> fst ` set al \<Longrightarrow> AList.update k v al = al @ [(k, v)]"
  by (induction al) auto

lemma foldl_df_set_distinct:
  assumes "distinct (map (\<lambda>g. (g_p g, g_c g)) gs)"
    and "(\<lambda>g. (g_p g, g_c g)) ` set gs \<inter> fst ` set acc = {}"
  shows "foldl (\<lambda>df g. df_set g df) acc gs = acc @ map (\<lambda>g. ((g_p g, g_c g), g)) gs"
  using assms
proof (induction gs arbitrary: acc)
  case Nil
  then show ?case by simp
next
  case (Cons g gs)
  from Cons.prems(2) have "(g_p g, g_c g) \<notin> fst ` set acc" by auto
  then have step: "df_set g acc = acc @ [((g_p g, g_c g), g)]"
    by (simp add: df_set_def update_new_key)
  have "(\<lambda>g. (g_p g, g_c g)) ` set gs \<inter> fst ` set (acc @ [((g_p g, g_c g), g)]) = {}"
    using Cons.prems by auto
  with Cons.IH[of "acc @ [((g_p g, g_c g), g)]"] Cons.prems(1) step show ?case by simp
qed

lemma Logo_init_glyphs:
  assumes "Logo_init E args = Inr l"
  shows "\<exists>gs. compute_rows E l (ps l) = Inr gs \<and>
              glyph_df l = foldl (\<lambda>df x. df_set x df) [] gs \<and> C l = length (cs l)"
proof -
  from assms obtain m d self1 where
    c: "compute_characters E ((init_attributes args m)\<lparr>rgba_dict := d\<rparr>) = Inr self1"
    and dr: "if arg_draw_now args then draw E None self1 = Ok l else l = self1"
    by (rule Logo_init_Inr)
  let ?s = "(init_attributes args m)\<lparr>rgba_dict := d\<rparr>"
  from c obtain gs where gs: "compute_rows E ?s (ps ?s) = Inr gs"
    and s1: "self1 = ?s\<lparr>glyph_df := foldl (\<lambda>df x. df_set x df) [] gs\<rparr>"
    by (auto simp: compute_characters_def split: sum.splits)
  have same: "matrix_df l = matrix_df ?s \<and> cs l = cs ?s \<and> C l = C ?s \<and> ps l = ps ?s \<and>
              rgba_dict l = rgba_dict ?s \<and> vsep l = vsep ?s \<and> flip_below l = flip_below ?s \<and>
              zorder l = zorder ?s \<and> glyph_df l = glyph_df self1"
  proof (cases "arg_draw_now args")
    case True
    with dr have "draw E None self1 = Ok l \<or> draw E None self1 = Raised undefined l" by simp
    from draw_fields[OF this] s1 show ?thesis by simp
  next
    case False
    with dr s1 show ?thesis by simp
  qed
  then have "compute_rows E l (ps l) = compute_rows E ?s (ps ?s)"
    using compute_rows_cong[of l ?s E "ps ?s"] by simp
  moreover have "C ?s = length (cs ?s)" by (simp add: init_attributes_def Let_def)
  ultimately show ?thesis using gs same s1 by simp
qed

text \<open>
  For a constructed Logo with unique positions and unique characters, the glyphs held for
  a position are the stack that the layout makes of the matrix row of this position.
\<close>

lemma Logo_init_position:
  assumes "Logo_init E args = Inr l" "distinct (ps l)" "distinct (cs l)"
    and "\<forall>row \<in> set (df_values (matrix_df l)). length row = length (cs l) \<and> argsort_sorts E row"
    and "p \<in> set (ps l)"
  obtains row where "df_loc (matrix_df l) p = Some row" "layout_row E l p row = Inr (glyphs_at l p)"
    "argsort_sorts E row" "length row = length (cs l)" "C l = length (cs l)"
proof -
  from Logo_init_glyphs[OF assms(1)] obtain gs where
    gs: "compute_rows E l (ps l) = Inr gs"
    and df: "glyph_df l = foldl (\<lambda>df x. df_set x df) [] gs" and C: "C l = length (cs l)"
    by blast
  have "distinct (map (\<lambda>g. (g_p g, g_c g)) gs)"
    by (rule compute_rows_keys_distinct[OF gs assms(2,3) C assms(4)])
  from foldl_df_set_distinct[OF this, of "[]"] df
  have "glyph_df l = map (\<lambda>g. ((g_p g, g_c g), g)) gs" by simp
  then have at: "glyphs_at l p = filter (\<lambda>g. g_p g = p) gs"
    by (simp add: glyphs_at_def filter_map comp_def)
  from compute_rows_at[OF gs assms(2,5)] obtain row where
    row: "df_loc (matrix_df l) p = Some row"
    and lay: "layout_row E l p row = Inr (filter (\<lambda>g. g_p g = p) gs)" by blast
  from df_loc_in_values[OF row] assms(4)
  have "length row = length (cs l)" "argsort_sorts E row" by auto
  with row lay at C that show thesis by simp
qed

section \<open>The stacks of a constructed Logo\<close>

lemma Logo_init_gap: "Logo_init example_env gap_args = Inr gap_logo"
  by (simp add: gap_args_def gap_logo_def gap_glyphs_def init_eval example_eval)

lemma Logo_init_tie: "Logo_init reversed_ties_env tie_args = Inr tie_logo"
  by (simp add: tie_args_def tie_logo_def tie_glyphs_def init_eval example_eval)

lemma gap_logo_wellformed:
  "distinct (ps gap_logo)" "distinct (cs gap_logo)"
  "\<forall>row \<in> set (df_values (matrix_df gap_logo)).
      length row = length (cs gap_logo) \<and> argsort_sorts example_env row"
  "0 \<in> set (ps gap_logo)" "vsep gap_logo = 1"
  "df_loc (matrix_df gap_logo) 0 = Some [- 2, 3, - 1]"
  by (simp_all add: gap_logo_def stable_argsort_sorts df_loc_def)

lemma glyphs_at_gap_logo:
  "glyphs_at gap_logo 0 =
     [Glyph (19/20) 0 ''A'' (- 9/2) (- 5/2) [1/2, 1/2, 1/2] True 0,
      Glyph (19/20) 0 ''G'' (- 3/2) (- 1/2) [1/2, 1/2, 1/2] True 0,
      Glyph (19/20) 0 ''C'' (1/2) (7/2) [1/2, 1/2, 1/2] False 0]"
  by (simp add: glyphs_at_def gap_logo_def gap_glyphs_def Glyph_def)

text \<open>
  C2.  In a constructed Logo with unique positions and characters and a gap \<open>vsep \<ge> 0\<close>,
  the glyphs held for a position are one per value of its matrix row, in ascending order
  of value, with ceiling = floor + |value| and each next floor = previous ceiling + gap;
  a glyph's ceiling is at most the floor of every glyph stacked after it, so the extents
  do not overlap and are ordered by ascending value; and the heights add up to the sum of
  the absolute values of the row.
\<close>

theorem stacks_ordered_and_total_height:
  assumes "Logo_init E args = Inr l" and "distinct (ps l)" and "distinct (cs l)"
    and "\<forall>row \<in> set (df_values (matrix_df l)). length row = length (cs l) \<and> argsort_sorts E row"
    and "p \<in> set (ps l)" and "0 \<le> vsep l"
  shows "\<exists>row. df_loc (matrix_df l) p = Some row \<and>
           length (glyphs_at l p) = length row \<and>
           sorted (sorted_values E row) \<and> mset (sorted_values E row) = mset row \<and>
           (\<forall>i < length row.
              g_p (glyphs_at l p ! i) = p \<and>
              g_c (glyphs_at l p ! i) = sorted_chars E (cs l) row ! i \<and>
              g_ceiling (glyphs_at l p ! i)
                = g_floor (glyphs_at l p ! i) + \<bar>sorted_values E row ! i\<bar>) \<and>
           (\<forall>i. Suc i < length row \<longrightarrow>
              g_floor (glyphs_at l p ! Suc i) = g_ceiling (glyphs_at l p ! i) + vsep l) \<and>
           (\<forall>i j. i < j \<and> j < length row \<longrightarrow>
              g_ceiling (glyphs_at l p ! i) \<le> g_floor (glyphs_at l p ! j)) \<and>
           (\<Sum>g\<leftarrow>glyphs_at l p. g_ceiling g - g_floor g) = (\<Sum>v\<leftarrow>row. \<bar>v\<bar>)"
proof -
  from assms(1-5) obtain row where row: "df_loc (matrix_df l) p = Some row"
    and a: "argsort_sorts E row" "length row = length (cs l)" "C l = length (cs l)"
      "layout_row E l p row = Inr (glyphs_at l p)"
    by (rule Logo_init_position)
  let ?gs = "glyphs_at l p"
  have "length ?gs = length row" by (rule layout_row_length[OF a])
  moreover have "sorted (sorted_values E row)" "mset (sorted_values E row) = mset row"
    using sorted_values_facts[OF a(1)] by simp_all
  moreover have "\<forall>i < length row. g_p (?gs ! i) = p \<and>
                g_c (?gs ! i) = sorted_chars E (cs l) row ! i \<and>
                g_ceiling (?gs ! i) = g_floor (?gs ! i) + \<bar>sorted_values E row ! i\<bar>"
    using layout_row_nth(2,3,4)[OF a] by blast
  moreover have "\<forall>i. Suc i < length row \<longrightarrow> g_floor (?gs ! Suc i) = g_ceiling (?gs ! i) + vsep l"
    using layout_row_next_floor[OF a] by blast
  moreover have "\<forall>i j. i < j \<and> j < length row \<longrightarrow> g_ceiling (?gs ! i) \<le> g_floor (?gs ! j)"
    using layout_row_ordered[OF a assms(6)] by blast
  moreover have "(\<Sum>g\<leftarrow>?gs. g_ceiling g - g_floor g) = (\<Sum>v\<leftarrow>row. \<bar>v\<bar>)"
    by (rule layout_row_heights[OF a])
  ultimately show ?thesis using row by blast
qed

theorem stacks_ordered_and_total_height_witness:
  "Logo_init example_env gap_args = Inr gap_logo \<and> 0 \<le> vsep gap_logo \<and> 0 \<in> set (ps gap_logo) \<and>
   df_loc (matrix_df gap_logo) 0 = Some [- 2, 3, - 1] \<and>
   length (glyphs_at gap_logo 0) = 3 \<and>
   g_ceiling (glyphs_at gap_logo 0 ! 0) \<le> g_floor (glyphs_at gap_logo 0 ! 1) \<and>
   g_ceiling (glyphs_at gap_logo 0 ! 1) \<le> g_floor (glyphs_at gap_logo 0 ! 2) \<and>
   (\<Sum>g\<leftarrow>glyphs_at gap_logo 0. g_ceiling g - g_floor g) = 6"
proof -
  note w = gap_logo_wellformed
  have v: "0 \<le> vsep gap_logo" by (simp add: w(5))
  from stacks_ordered_and_total_height[OF Logo_init_gap w(1,2,3,4) v]
  obtain row where row: "df_loc (matrix_df gap_logo) 0 = Some row"
    and len: "length (glyphs_at gap_logo 0) = length row"
    and ord: "\<forall>i j. i < j \<and> j < length row \<longrightarrow>
              g_ceiling (glyphs_at gap_logo 0 ! i) \<le> g_floor (glyphs_at gap_logo 0 ! j)"
    and tot: "(\<Sum>g\<leftarrow>glyphs_at gap_logo 0. g_ceiling g - g_floor g) = (\<Sum>v\<leftarrow>row. \<bar>v\<bar>)"
    by blast
  from row w(6) have r: "row = [- 2, 3, - 1]" by simp
  from ord r have "g_ceiling (glyphs_at gap_logo 0 ! 0) \<le> g_floor (glyphs_at gap_logo 0 ! 1)"
    "g_ceiling (glyphs_at gap_logo 0 ! 1) \<le> g_floor (glyphs_at gap_logo 0 ! 2)" by simp_all
  moreover from tot r have "(\<Sum>g\<leftarrow>glyphs_at gap_logo 0. g_ceiling g - g_floor g) = 6" by simp
  moreover from len r have "length (glyphs_at gap_logo 0) = 3" by simp
  ultimately show ?thesis using Logo_init_gap v w(4,6) by blast
qed

text \<open>
  The stack of a row around the axis: with \<open>k\<close> negative values the glyphs \<open>0 .. k-1\<close> are
  the negative ones; the last of them ends at \<open>- vsep / 2\<close> and the next glyph starts at
  \<open>vsep / 2\<close>.
\<close>

lemma layout_row_axis:
  assumes "argsort_sorts E row" "length row = length (cs self)" "C self = length (cs self)"
    and "layout_row E self p row = Inr gs"
  shows "i < length row \<Longrightarrow>
           (sorted_values E row ! i < 0 \<longleftrightarrow> i < length (filter (\<lambda>v. v < 0) row))"
    and "row \<noteq> [] \<Longrightarrow>
           g_floor (gs ! 0) = (\<Sum>v\<leftarrow>filter (\<lambda>v. v < 0) row. v - vsep self) + vsep self / 2"
    and "0 < length (filter (\<lambda>v. v < 0) row) \<Longrightarrow>
           g_ceiling (gs ! (length (filter (\<lambda>v. v < 0) row) - 1)) = - (vsep self / 2)"
    and "length (filter (\<lambda>v. v < 0) row) < length row \<Longrightarrow>
           g_floor (gs ! length (filter (\<lambda>v. v < 0) row)) = vsep self / 2"
proof -
  let ?ws = "sorted_values E row"
  let ?g = "vsep self"
  let ?k = "length (filter (\<lambda>v. v < 0) row)"
  note a = assms
  note sv = sorted_values_facts[OF assms(1)]
  have k: "length (filter (\<lambda>v. v < 0) ?ws) = ?k"
    using length_filter_mset_cong[OF sv(2)] by simp
  show "?ws ! i < 0 \<longleftrightarrow> i < ?k" if "i < length row"
  proof -
    from that sv(3) have i: "i < length ?ws" by simp
    show ?thesis using prefix_filter_iff[OF sorted_split_neg[OF sv(1)] i] k by simp
  qed
  show "g_floor (gs ! 0) = (\<Sum>v\<leftarrow>filter (\<lambda>v. v < 0) row. v - ?g) + ?g / 2" if "row \<noteq> []"
  proof -
    from that have "0 < length row" by simp
    from layout_row_nth(1)[OF a this]
    have "g_floor (gs ! 0) = initial_floor ?g ?ws" by simp
    also have "\<dots> = (\<Sum>v\<leftarrow>filter (\<lambda>v. v < 0) ?ws. v - ?g) + ?g / 2"
      by (rule initial_floor_filter)
    also have "(\<Sum>v\<leftarrow>filter (\<lambda>v. v < 0) ?ws. v - ?g) = (\<Sum>v\<leftarrow>filter (\<lambda>v. v < 0) row. v - ?g)"
      by (rule sum_list_mset_cong) (rule filter_mset_cong_list[OF sv(2)])
    finally show ?thesis .
  qed
  show "g_floor (gs ! ?k) = ?g / 2" if "?k < length row"
    using layout_row_nth(1)[OF a that] floor_after_negatives[OF sv(1), of ?g] k by simp
  show "g_ceiling (gs ! (?k - 1)) = - (?g / 2)" if "0 < ?k"
  proof -
    have "?k \<le> length row" by (rule length_filter_le)
    with that have i: "?k - 1 < length row" by linarith
    from i sv(3) that have "take ?k ?ws = take (?k - 1) ?ws @ [?ws ! (?k - 1)]"
      by (metis Suc_diff_1 take_Suc_conv_app_nth)
    then have "(\<Sum>v\<leftarrow>take ?k ?ws. \<bar>v\<bar> + ?g)
                 = (\<Sum>v\<leftarrow>take (?k - 1) ?ws. \<bar>v\<bar> + ?g) + \<bar>?ws ! (?k - 1)\<bar> + ?g" by simp
    with layout_row_nth(1,2)[OF a i] floor_after_negatives[OF sv(1), of ?g] k
    show ?thesis by simp
  qed
qed

lemma layout_row_below_above:
  assumes "argsort_sorts E row" "length row = length (cs self)" "C self = length (cs self)"
    and "layout_row E self p row = Inr gs"
    and "0 < vsep self" and "\<exists>v \<in> set row. v < 0" and "\<exists>v \<in> set row. 0 < v"
  shows "i < length row \<Longrightarrow> sorted_values E row ! i < 0 \<Longrightarrow> g_ceiling (gs ! i) \<le> - (vsep self / 2)"
    and "i < length row \<Longrightarrow> \<not> sorted_values E row ! i < 0 \<Longrightarrow> vsep self / 2 \<le> g_floor (gs ! i)"
    and "0 < length (filter (\<lambda>v. v < 0) row)"
    and "length (filter (\<lambda>v. v < 0) row) < length row"
proof -
  let ?k = "length (filter (\<lambda>v. v < 0) row)"
  let ?g = "vsep self"
  note a = assms(1-4)
  have g0: "0 \<le> ?g" using assms(5) by simp
  from assms(6) have "filter (\<lambda>v. v < 0) row \<noteq> []" by (auto simp: filter_empty_conv)
  then show k0: "0 < ?k" by simp
  from assms(7) obtain v where "v \<in> set row" "\<not> v < 0" by force
  then show kn: "?k < length row" by (rule length_filter_less)
  have up: "g_floor (gs ! j) \<le> g_ceiling (gs ! j)" if "j < length row" for j
    using layout_row_nth(2)[OF a that] by simp
  show "g_ceiling (gs ! i) \<le> - (?g / 2)" if i: "i < length row" and neg: "sorted_values E row ! i < 0"
  proof -
    from layout_row_axis(1)[OF a i] neg have ik: "i < ?k" by simp
    have top: "g_ceiling (gs ! (?k - 1)) = - (?g / 2)" by (rule layout_row_axis(3)[OF a k0])
    show ?thesis
    proof (cases "i = ?k - 1")
      case True
      with top show ?thesis by simp
    next
      case False
      with ik have lt: "i < ?k - 1" by simp
      from kn k0 have kk: "?k - 1 < length row" by simp
      from layout_row_ordered[OF a g0 lt kk] up[OF kk] top show ?thesis by simp
    qed
  qed
  show "?g / 2 \<le> g_floor (gs ! i)" if i: "i < length row" and nn: "\<not> sorted_values E row ! i < 0"
  proof -
    from layout_row_axis(1)[OF a i] nn have ki: "?k \<le> i" by simp
    have bot: "g_floor (gs ! ?k) = ?g / 2" by (rule layout_row_axis(4)[OF a kn])
    show ?thesis
    proof (cases "i = ?k")
      case True
      with bot show ?thesis by simp
    next
      case False
      with ki have lt: "?k < i" by simp
      from layout_row_ordered[OF a g0 lt i] up[OF kn] bot show ?thesis by simp
    qed
  qed
qed

text \<open>
  C1.  In a constructed Logo with unique positions and characters, the floor of the first
  glyph stacked at a position is the sum of \<open>v - vsep\<close> over the negative values \<open>v\<close> of its
  row, plus \<open>vsep / 2\<close>.  When the gap is positive and the row has a negative and a positive
  value, every glyph of the position lies strictly below or strictly above the axis, the
  below-axis glyphs are those of the negative values, the topmost below-axis glyph has its
  ceiling at \<open>- vsep / 2\<close>, the bottommost above-axis glyph has its floor at \<open>vsep / 2\<close>, and
  the gap between the two is \<open>vsep\<close>.
\<close>

theorem axis_gap_of_stacks:
  assumes "Logo_init E args = Inr l" and "distinct (ps l)" and "distinct (cs l)"
    and "\<forall>row \<in> set (df_values (matrix_df l)). length row = length (cs l) \<and> argsort_sorts E row"
    and "p \<in> set (ps l)"
  shows "\<exists>row. df_loc (matrix_df l) p = Some row \<and> length (glyphs_at l p) = length row \<and>
     (row \<noteq> [] \<longrightarrow>
        g_floor (glyphs_at l p ! 0) = (\<Sum>v\<leftarrow>filter (\<lambda>v. v < 0) row. v - vsep l) + vsep l / 2) \<and>
     (0 < vsep l \<and> (\<exists>v \<in> set row. v < 0) \<and> (\<exists>v \<in> set row. 0 < v) \<longrightarrow>
        (\<forall>g \<in> set (glyphs_at l p). g_ceiling g < 0 \<or> 0 < g_floor g) \<and>
        (\<forall>i < length row.
           g_ceiling (glyphs_at l p ! i) < 0 \<longleftrightarrow> sorted_values E row ! i < 0) \<and>
        (\<exists>b \<in> set (glyphs_at l p). \<exists>t \<in> set (glyphs_at l p).
           g_ceiling b < 0 \<and>
           (\<forall>g \<in> set (glyphs_at l p). g_ceiling g < 0 \<longrightarrow> g_ceiling g \<le> g_ceiling b) \<and>
           0 < g_floor t \<and>
           (\<forall>g \<in> set (glyphs_at l p). 0 < g_floor g \<longrightarrow> g_floor t \<le> g_floor g) \<and>
           g_ceiling b = - (vsep l / 2) \<and> g_floor t = vsep l / 2 \<and>
           g_floor t - g_ceiling b = vsep l))"
proof -
  from assms obtain row where row: "df_loc (matrix_df l) p = Some row"
    and a: "argsort_sorts E row" "length row = length (cs l)" "C l = length (cs l)"
      "layout_row E l p row = Inr (glyphs_at l p)"
    by (rule Logo_init_position)
  let ?gs = "glyphs_at l p"
  let ?g = "vsep l"
  let ?k = "length (filter (\<lambda>v. v < 0) row)"
  have len: "length ?gs = length row" by (rule layout_row_length[OF a])
  have f0: "row \<noteq> [] \<longrightarrow>
        g_floor (?gs ! 0) = (\<Sum>v\<leftarrow>filter (\<lambda>v. v < 0) row. v - ?g) + ?g / 2"
    using layout_row_axis(2)[OF a] by blast
  have geo: "(\<forall>g \<in> set ?gs. g_ceiling g < 0 \<or> 0 < g_floor g) \<and>
        (\<forall>i < length row. g_ceiling (?gs ! i) < 0 \<longleftrightarrow> sorted_values E row ! i < 0) \<and>
        (\<exists>b \<in> set ?gs. \<exists>t \<in> set ?gs.
           g_ceiling b < 0 \<and> (\<forall>g \<in> set ?gs. g_ceiling g < 0 \<longrightarrow> g_ceiling g \<le> g_ceiling b) \<and>
           0 < g_floor t \<and> (\<forall>g \<in> set ?gs. 0 < g_floor g \<longrightarrow> g_floor t \<le> g_floor g) \<and>
           g_ceiling b = - (?g / 2) \<and> g_floor t = ?g / 2 \<and> g_floor t - g_ceiling b = ?g)"
    if h: "0 < ?g" "\<exists>v \<in> set row. v < 0" "\<exists>v \<in> set row. 0 < v"
  proof -
    note ba = layout_row_below_above[OF a h]
    have up: "g_floor (?gs ! j) \<le> g_ceiling (?gs ! j)" if "j < length row" for j
      using layout_row_nth(2)[OF a that] by simp
    have low: "g_ceiling (?gs ! i) \<le> - (?g / 2)" if "i < length row" "sorted_values E row ! i < 0" for i
      using ba(1)[OF that] .
    have high: "?g / 2 \<le> g_floor (?gs ! i)" if "i < length row" "\<not> sorted_values E row ! i < 0" for i
      using ba(2)[OF that] .
    have iff: "g_ceiling (?gs ! i) < 0 \<longleftrightarrow> sorted_values E row ! i < 0" if i: "i < length row" for i
    proof (cases "sorted_values E row ! i < 0")
      case True
      with low[OF i] h(1) show ?thesis by simp
    next
      case False
      with high[OF i] up[OF i] h(1) show ?thesis by simp
    qed
    have iff2: "0 < g_floor (?gs ! i) \<longleftrightarrow> \<not> sorted_values E row ! i < 0" if i: "i < length row" for i
    proof (cases "sorted_values E row ! i < 0")
      case True
      with low[OF i] up[OF i] h(1) show ?thesis by simp
    next
      case False
      with high[OF i] h(1) show ?thesis by simp
    qed
    have each: "\<forall>g \<in> set ?gs. g_ceiling g < 0 \<or> 0 < g_floor g"
    proof
      fix g assume "g \<in> set ?gs"
      then obtain i where "i < length row" "?gs ! i = g" using len by (auto simp: in_set_conv_nth)
      with iff[of i] iff2[of i] show "g_ceiling g < 0 \<or> 0 < g_floor g" by auto
    qed
    have kb: "?k - 1 < length row" using ba(3,4) by simp
    let ?b = "?gs ! (?k - 1)" and ?t = "?gs ! ?k"
    have b: "g_ceiling ?b = - (?g / 2)" by (rule layout_row_axis(3)[OF a ba(3)])
    have t: "g_floor ?t = ?g / 2" by (rule layout_row_axis(4)[OF a ba(4)])
    have bmax: "\<forall>g \<in> set ?gs. g_ceiling g < 0 \<longrightarrow> g_ceiling g \<le> g_ceiling ?b"
    proof (intro ballI impI)
      fix g assume "g \<in> set ?gs" "g_ceiling g < 0"
      then obtain i where i: "i < length row" "?gs ! i = g" using len by (auto simp: in_set_conv_nth)
      with \<open>g_ceiling g < 0\<close> iff[of i] have "sorted_values E row ! i < 0" by simp
      from low[OF i(1) this] i(2) b show "g_ceiling g \<le> g_ceiling ?b" by simp
    qed
    have tmin: "\<forall>g \<in> set ?gs. 0 < g_floor g \<longrightarrow> g_floor ?t \<le> g_floor g"
    proof (intro ballI impI)
      fix g assume "g \<in> set ?gs" "0 < g_floor g"
      then obtain i where i: "i < length row" "?gs ! i = g" using len by (auto simp: in_set_conv_nth)
      with \<open>0 < g_floor g\<close> iff2[of i] have "\<not> sorted_values E row ! i < 0" by simp
      from high[OF i(1) this] i(2) t show "g_floor ?t \<le> g_floor g" by simp
    qed
    have "?b \<in> set ?gs" "?t \<in> set ?gs" using kb ba(4) len by simp_all
    moreover have "g_ceiling ?b < 0" "0 < g_floor ?t" "g_floor ?t - g_ceiling ?b = ?g"
      using b t h(1) by simp_all
    ultimately have "\<exists>b \<in> set ?gs. \<exists>t \<in> set ?gs.
           g_ceiling b < 0 \<and> (\<forall>g \<in> set ?gs. g_ceiling g < 0 \<longrightarrow> g_ceiling g \<le> g_ceiling b) \<and>
           0 < g_floor t \<and> (\<forall>g \<in> set ?gs. 0 < g_floor g \<longrightarrow> g_floor t \<le> g_floor g) \<and>
           g_ceiling b = - (?g / 2) \<and> g_floor t = ?g / 2 \<and> g_floor t - g_ceiling b = ?g"
      using bmax tmin b t by blast
    with each iff show ?thesis by blast
  qed
  from row len f0 geo show ?thesis by blast
qed

theorem axis_gap_of_stacks_witness:
  "Logo_init example_env gap_args = Inr gap_logo \<and> 0 \<in> set (ps gap_logo) \<and> 0 < vsep gap_logo \<and>
   df_loc (matrix_df gap_logo) 0 = Some [- 2, 3, - 1] \<and>
   g_floor (glyphs_at gap_logo 0 ! 0) = - 9/2 \<and>
   (\<exists>b \<in> set (glyphs_at gap_logo 0). \<exists>t \<in> set (glyphs_at gap_logo 0).
      g_ceiling b < 0 \<and> 0 < g_floor t \<and>
      g_ceiling b = - 1/2 \<and> g_floor t = 1/2 \<and> g_floor t - g_ceiling b = 1)"
proof -
  note w = gap_logo_wellformed
  let ?gs = "glyphs_at gap_logo 0"
  from axis_gap_of_stacks[OF Logo_init_gap w(1,2,3,4)]
  obtain row where row: "df_loc (matrix_df gap_logo) 0 = Some row"
    and f0: "row \<noteq> [] \<longrightarrow>
        g_floor (?gs ! 0) = (\<Sum>v\<leftarrow>filter (\<lambda>v. v < 0) row. v - vsep gap_logo) + vsep gap_logo / 2"
    and geo: "0 < vsep gap_logo \<and> (\<exists>v \<in> set row. v < 0) \<and> (\<exists>v \<in> set row. 0 < v) \<longrightarrow>
        (\<exists>b \<in> set ?gs. \<exists>t \<in> set ?gs.
           g_ceiling b < 0 \<and> 0 < g_floor t \<and>
           g_ceiling b = - (vsep gap_logo / 2) \<and> g_floor t = vsep gap_logo / 2 \<and>
           g_floor t - g_ceiling b = vsep gap_logo)"
    by blast
  from row w(6) have r: "row = [- 2, 3, - 1]" by simp
  from f0 have "g_floor (?gs ! 0) = - 9/2" unfolding r w(5) by simp
  moreover from geo have "\<exists>b \<in> set ?gs. \<exists>t \<in> set ?gs.
      g_ceiling b < 0 \<and> 0 < g_floor t \<and>
      g_ceiling b = - 1/2 \<and> g_floor t = 1/2 \<and> g_floor t - g_ceiling b = 1"
    unfolding r w(5) by simp
  ultimately show ?thesis using Logo_init_gap w(4,5,6) by simp
qed

text \<open>
  C3, as the code has it.  In a constructed Logo with unique positions and characters, the
  glyphs of a position follow the values of its row in ascending order, each character
  keeping its own value.  Where the values of the row are all different, this order is
  the same for every argsort that meets the contract.  Among equal values the order is the
  one \<^verbatim>\<open>np.argsort\<close> returns: the source calls it with the default \<^verbatim>\<open>kind\<close>, which is not a
  stable sort, and does nothing else to order equal values.
\<close>

theorem stacking_order_ascending_by_value:
  assumes "Logo_init E args = Inr l" and "distinct (ps l)" and "distinct (cs l)"
    and "\<forall>row \<in> set (df_values (matrix_df l)). length row = length (cs l) \<and> argsort_sorts E row"
    and "p \<in> set (ps l)"
  shows "\<exists>row. df_loc (matrix_df l) p = Some row \<and>
           map g_c (glyphs_at l p) = sorted_chars E (cs l) row \<and>
           map (\<lambda>g. g_ceiling g - g_floor g) (glyphs_at l p) = map abs (sorted_values E row) \<and>
           sorted (sorted_values E row) \<and>
           mset (zip (sorted_values E row) (sorted_chars E (cs l) row)) = mset (zip row (cs l)) \<and>
           (\<forall>E'. argsort_sorts E' row \<and> distinct row \<longrightarrow>
                 sorted_chars E' (cs l) row = sorted_chars E (cs l) row)"
proof -
  from assms obtain row where row: "df_loc (matrix_df l) p = Some row"
    and a: "argsort_sorts E row" "length row = length (cs l)" "C l = length (cs l)"
      "layout_row E l p row = Inr (glyphs_at l p)"
    by (rule Logo_init_position)
  let ?gs = "glyphs_at l p"
  have len: "length ?gs = length row" "length (sorted_values E row) = length row"
    using layout_row_length[OF a] sorted_values_facts(3)[OF a(1)] by simp_all
  have "map g_c ?gs = sorted_chars E (cs l) row" by (rule layout_row_chars[OF a])
  moreover have "map (\<lambda>g. g_ceiling g - g_floor g) ?gs = map abs (sorted_values E row)"
  proof (rule nth_equalityI)
    show "length (map (\<lambda>g. g_ceiling g - g_floor g) ?gs) = length (map abs (sorted_values E row))"
      using len by simp
  next
    fix i assume "i < length (map (\<lambda>g. g_ceiling g - g_floor g) ?gs)"
    then have i: "i < length row" using len by simp
    from layout_row_nth(2)[OF a i] i len
    show "map (\<lambda>g. g_ceiling g - g_floor g) ?gs ! i = map abs (sorted_values E row) ! i" by simp
  qed
  moreover have "sorted (sorted_values E row)" by (rule sorted_values_facts(1)[OF a(1)])
  moreover have "mset (zip (sorted_values E row) (sorted_chars E (cs l) row)) = mset (zip row (cs l))"
    by (rule sorted_pairs_mset[OF a(1,2)])
  moreover have "\<forall>E'. argsort_sorts E' row \<and> distinct row \<longrightarrow>
                 sorted_chars E' (cs l) row = sorted_chars E (cs l) row"
    using argsort_unique_on_distinct[OF a(1)] by (simp add: sorted_chars_def)
  ultimately show ?thesis using row by blast
qed

theorem stacking_order_ascending_by_value_witness:
  "Logo_init example_env gap_args = Inr gap_logo \<and> 0 \<in> set (ps gap_logo) \<and>
   df_loc (matrix_df gap_logo) 0 = Some [- 2, 3, - 1] \<and>
   map g_c (glyphs_at gap_logo 0) = [''A'', ''G'', ''C''] \<and>
   map (\<lambda>g. g_ceiling g - g_floor g) (glyphs_at gap_logo 0) = [2, 1, 3] \<and>
   sorted_chars reversed_ties_env (cs gap_logo) [- 2, 3, - 1] = [''A'', ''G'', ''C'']"
proof -
  note w = gap_logo_wellformed
  let ?gs = "glyphs_at gap_logo 0"
  have sc: "sorted_chars example_env (cs gap_logo) [- 2, 3, - 1] = [''A'', ''G'', ''C'']"
    "sorted_values example_env [- 2, 3, - 1] = [- 2, - 1, 3]"
    by (simp_all add: sorted_chars_def sorted_values_def gap_logo_def example_env_def
        stable_argsort_def upt_rec)
  from stacking_order_ascending_by_value[OF Logo_init_gap w(1,2,3,4)]
  obtain row where row: "df_loc (matrix_df gap_logo) 0 = Some row"
    and c: "map g_c ?gs = sorted_chars example_env (cs gap_logo) row"
    and h: "map (\<lambda>g. g_ceiling g - g_floor g) ?gs = map abs (sorted_values example_env row)"
    and u: "\<forall>E'. argsort_sorts E' row \<and> distinct row \<longrightarrow>
              sorted_chars E' (cs gap_logo) row = sorted_chars example_env (cs gap_logo) row"
    by blast
  from row w(6) have r: "row = [- 2, 3, - 1]" by simp
  have "argsort_sorts reversed_ties_env [- 2, 3, - 1]" by (rule reversed_ties_argsort_sorts)
  with u have "sorted_chars reversed_ties_env (cs gap_logo) [- 2, 3, - 1] = [''A'', ''G'', ''C'']"
    unfolding r sc by simp
  moreover from c have "map g_c ?gs = [''A'', ''G'', ''C'']" unfolding r sc .
  moreover from h have "map (\<lambda>g. g_ceiling g - g_floor g) ?gs = [2, 1, 3]" unfolding r sc by simp
  ultimately show ?thesis using Logo_init_gap w(4,6) by simp
qed

theorem equal_values_stacked_against_column_order:
  "argsort reversed_ties_env [2, 2, 0, 0] = [3, 2, 1, 0] \<and>
   argsort_sorts reversed_ties_env [2, 2, 0, 0] \<and>
   Logo_init reversed_ties_env tie_args = Inr tie_logo \<and>
   cs tie_logo = [''A'', ''C'', ''G'', ''T''] \<and>
   df_loc (matrix_df tie_logo) 0 = Some [2, 2, 0, 0] \<and>
   map g_c (glyphs_at tie_logo 0) = [''T'', ''G'', ''C'', ''A'']"
proof -
  have "argsort reversed_ties_env [2, 2, 0, 0] = [3, 2, 1, 0]"
    by (simp add: reversed_ties_env_def example_env_def reversed_ties_argsort_def upt_rec)
  moreover have "cs tie_logo = [''A'', ''C'', ''G'', ''T'']"
    "df_loc (matrix_df tie_logo) 0 = Some [2, 2, 0, 0]"
    "map g_c (glyphs_at tie_logo 0) = [''T'', ''G'', ''C'', ''A'']"
    by (simp_all add: tie_logo_def tie_glyphs_def glyphs_at_def df_loc_def Glyph_def)
  ultimately show ?thesis using Logo_init_tie reversed_ties_argsort_sorts by simp
qed

lemma Logo_init_fractional: "Logo_init example_env fractional_args = Inr fractional_logo"
  by (simp add: fractional_args_def fractional_logo_def fractional_glyphs_def
      fractional_axes_def init_eval example_eval)

lemma format_all_labels:
  "format_all E fmt ticks = Inr labels \<Longrightarrow>
     length labels = length ticks \<and>
     (\<forall>i < length ticks. py_format E fmt (ticks ! i) = Inr (labels ! i))"
proof (induction ticks arbitrary: labels)
  case Nil
  then show ?case by simp
next
  case (Cons p rest)
  from Cons.prems obtain label labels' where
    p: "py_format E fmt p = Inr label" and r: "format_all E fmt rest = Inr labels'"
    and l: "labels = label # labels'"
    by (auto split: sum.splits)
  from Cons.IH[OF r] p l show ?case by (auto simp: nth_Cons split: nat.splits)
qed

lemma np_arange_ascending: "sorted (np_arange start stop) \<and> distinct (np_arange start stop)"
proof -
  have "sorted (map (\<lambda>i. start + real i) [0..<n])" for n
    by (induction n) (auto simp: sorted_append)
  moreover have "distinct (map (\<lambda>i. start + real i) [0..<n])" for n
    by (simp add: distinct_map inj_on_def)
  ultimately show ?thesis by (simp add: np_arange_def)
qed

text \<open>
  C9, as the code has it.  On a drawn logo with a non-zero spacing, \<^verbatim>\<open>style_xticks\<close> sets
  the ticks to the members \<open>anchor + k * spacing\<close> of the arithmetic sequence found on the
  grid \<open>p_min, p_min + 1, \<dots>\<close> below \<open>p_max + 1\<close>, in ascending order.  When the positions,
  the anchor and the spacing are integers, these are exactly the members of the sequence
  between \<open>p_min\<close> and \<open>p_max\<close>.  Each tick is labelled with the format applied to its
  position; when the format does not fit a tick, the call raises with the new ticks
  already set and the labels untouched.
\<close>

theorem xticks_sequence_members_on_unit_grid:
  assumes "has_been_drawn self" and "ax self = Some a" and "ps self \<noteq> []" and "spacing \<noteq> 0"
  shows "\<exists>ticks.
           ticks = filter (\<lambda>p. \<exists>k::int. p = anchor + of_int k * spacing)
                     (np_arange (Min (set (ps self))) (Max (set (ps self)) + 1)) \<and>
           sorted ticks \<and> distinct ticks \<and>
           (\<forall>p \<in> set ticks. Min (set (ps self)) \<le> p \<and> p < Max (set (ps self)) + 1) \<and>
           (set (ps self) \<subseteq> \<int> \<and> anchor \<in> \<int> \<and> spacing \<in> \<int> \<longrightarrow>
              set ticks = {p. (\<exists>k::int. p = anchor + of_int k * spacing) \<and>
                              Min (set (ps self)) \<le> p \<and> p \<le> Max (set (ps self))}) \<and>
           (\<forall>labels. format_all E fmt ticks = Inr labels \<longrightarrow>
              style_xticks E anchor spacing fmt rotation kw self
                = Ok (self\<lparr>ax := Some (a\<lparr>ax_xticks := ticks,
                                           ax_xticklabels := labels,
                                           ax_xtick_rotation := rotation,
                                           ax_xtick_kwargs := kw\<rparr>)\<rparr>) \<and>
              length labels = length ticks \<and>
              (\<forall>i < length ticks. py_format E fmt (ticks ! i) = Inr (labels ! i))) \<and>
           (\<forall>e. format_all E fmt ticks = Inl e \<longrightarrow>
              style_xticks E anchor spacing fmt rotation kw self
                = Raised e (self\<lparr>ax := Some (a\<lparr>ax_xticks := ticks\<rparr>)\<rparr>))"
proof -
  let ?lo = "Min (set (ps self))" and ?hi = "Max (set (ps self))"
  let ?P = "\<lambda>p. \<exists>k::int. p = anchor + of_int k * spacing"
  let ?ticks = "filter ?P (np_arange ?lo (?hi + 1))"
  have P: "np_mod (p - anchor) spacing = Some 0 \<longleftrightarrow> ?P p" for p
    using assms(4) by (auto simp: np_mod_zero_iff algebra_simps)
  have asc: "sorted ?ticks" "distinct ?ticks"
    using np_arange_ascending[of ?lo "?hi + 1"] sorted_wrt_filter[of "(\<le>)" "np_arange ?lo (?hi + 1)" ?P]
    by simp_all
  have ok: "style_xticks E anchor spacing fmt rotation kw self
             = Ok (self\<lparr>ax := Some (a\<lparr>ax_xticks := ?ticks,
                                        ax_xticklabels := labels,
                                        ax_xtick_rotation := rotation,
                                        ax_xtick_kwargs := kw\<rparr>)\<rparr>)"
    if "format_all E fmt ?ticks = Inr labels" for labels
    using assms(1,2) py_min_Min[OF assms(3)] py_max_Max[OF assms(3)] that
    by (simp add: style_xticks_def Let_def P)
  have bad: "style_xticks E anchor spacing fmt rotation kw self
             = Raised e (self\<lparr>ax := Some (a\<lparr>ax_xticks := ?ticks\<rparr>)\<rparr>)"
    if "format_all E fmt ?ticks = Inl e" for e
    using assms(1,2) py_min_Min[OF assms(3)] py_max_Max[OF assms(3)] that
    by (simp add: style_xticks_def Let_def P)
  have rng: "\<forall>p \<in> set ?ticks. ?lo \<le> p \<and> p < ?hi + 1"
    by (auto simp: set_np_arange)
  have ints: "set ?ticks = {p. ?P p \<and> ?lo \<le> p \<and> p \<le> ?hi}"
    if z: "set (ps self) \<subseteq> \<int>" "anchor \<in> \<int>" "spacing \<in> \<int>"
  proof -
    from assms(3) have "?lo \<in> set (ps self)" "?hi \<in> set (ps self)" by simp_all
    with z(1) have "?lo \<in> \<int>" "?hi \<in> \<int>" by blast+
    then have g: "set (np_arange ?lo (?hi + 1)) = {p. p \<in> \<int> \<and> ?lo \<le> p \<and> p \<le> ?hi}"
      by (rule np_arange_integers)
    have "?P p \<Longrightarrow> p \<in> \<int>" for p using z(2,3) by auto
    with g show ?thesis by auto
  qed
  from asc ok bad rng ints format_all_labels[of E fmt ?ticks] show ?thesis by blast
qed

lemma example_format_d: "py_format example_env ''%d'' p = Inr (format_d p)"
  by (simp add: example_env_def example_format_def)

theorem xticks_sequence_members_on_unit_grid_witness:
  "has_been_drawn drawn_logo \<and> ax drawn_logo = Some drawn_axes \<and> ps drawn_logo \<noteq> [] \<and>
   style_xticks example_env 0 2 ''%d'' 0 [] drawn_logo
     = Ok (drawn_logo\<lparr>ax := Some (drawn_axes\<lparr>ax_xticks := [0, 2],
                                                ax_xticklabels := [''0'', ''2''],
                                                ax_xtick_rotation := 0,
                                                ax_xtick_kwargs := []\<rparr>)\<rparr>) \<and>
   style_xticks example_env 0 2 ''tick'' 0 [] drawn_logo
     = Raised (TypeError ''not all arguments converted during string formatting'')
         (drawn_logo\<lparr>ax := Some (drawn_axes\<lparr>ax_xticks := [0, 2]\<rparr>)\<rparr>)"
proof -
  have h: "has_been_drawn drawn_logo" "ax drawn_logo = Some drawn_axes" "ps drawn_logo \<noteq> []"
    "(2::real) \<noteq> 0"
    by (simp_all add: drawn_logo_def undrawn_logo_def)
  have lim: "Min (set (ps drawn_logo)) = 0" "Max (set (ps drawn_logo)) = 2"
    by (simp_all add: drawn_logo_def undrawn_logo_def)
  have grid: "np_arange 0 (2 + 1) = [0, 1, 2]" by (simp add: np_arange_def upt_rec)
  have m0: "\<exists>k::int. (0::real) = 0 + of_int k * 2" by (rule exI[of _ 0]) simp
  have m2: "\<exists>k::int. (2::real) = 0 + of_int k * 2" by (rule exI[of _ 1]) simp
  have m1: "\<not> (\<exists>k::int. (1::real) = 0 + of_int k * 2)"
  proof
    assume "\<exists>k::int. (1::real) = 0 + of_int k * 2"
    then obtain k :: int where "(1::real) = of_int (k * 2)" by auto
    then have "1 = k * 2" by (metis of_int_1 of_int_eq_iff)
    then show False by presburger
  qed
  have f: "format_all example_env ''%d'' [0, 2] = Inr [''0'', ''2'']"
    by (simp add: example_format_d format_d_def)
  have g: "format_all example_env ''tick'' [0, 2]
             = Inl (TypeError ''not all arguments converted during string formatting'')"
    by (simp add: example_env_def example_format_def)
  have fl: "filter (\<lambda>p. \<exists>k::int. p = 0 + of_int k * 2) [0, 1, 2 :: real] = [0, 2]"
    using m0 m1 m2 by simp
  from xticks_sequence_members_on_unit_grid[OF h, of 0 example_env "''%d''" 0 "[]"]
  obtain ticks where t: "ticks = filter (\<lambda>p. \<exists>k::int. p = 0 + of_int k * 2) (np_arange 0 (2 + 1))"
    and ok: "\<forall>labels. format_all example_env ''%d'' ticks = Inr labels \<longrightarrow>
              style_xticks example_env 0 2 ''%d'' 0 [] drawn_logo
                = Ok (drawn_logo\<lparr>ax := Some (drawn_axes\<lparr>ax_xticks := ticks,
                                           ax_xticklabels := labels,
                                           ax_xtick_rotation := 0,
                                           ax_xtick_kwargs := []\<rparr>)\<rparr>)"
    unfolding lim by blast
  from t have t1: "ticks = [0, 2]" unfolding grid fl .
  from xticks_sequence_members_on_unit_grid[OF h, of 0 example_env "''tick''" 0 "[]"]
  obtain ticks' where t': "ticks' = filter (\<lambda>p. \<exists>k::int. p = 0 + of_int k * 2) (np_arange 0 (2 + 1))"
    and bad: "\<forall>e. format_all example_env ''tick'' ticks' = Inl e \<longrightarrow>
              style_xticks example_env 0 2 ''tick'' 0 [] drawn_logo
                = Raised e (drawn_logo\<lparr>ax := Some (drawn_axes\<lparr>ax_xticks := ticks'\<rparr>)\<rparr>)"
    unfolding lim by blast
  from t' have t2: "ticks' = [0, 2]" unfolding grid fl .
  from ok f have "style_xticks example_env 0 2 ''%d'' 0 [] drawn_logo
     = Ok (drawn_logo\<lparr>ax := Some (drawn_axes\<lparr>ax_xticks := [0, 2],
                                                ax_xticklabels := [''0'', ''2''],
                                                ax_xtick_rotation := 0,
                                                ax_xtick_kwargs := []\<rparr>)\<rparr>)"
    unfolding t1 by blast
  moreover from bad g have "style_xticks example_env 0 2 ''tick'' 0 [] drawn_logo
     = Raised (TypeError ''not all arguments converted during string formatting'')
         (drawn_logo\<lparr>ax := Some (drawn_axes\<lparr>ax_xticks := [0, 2]\<rparr>)\<rparr>)"
    unfolding t2 by blast
  ultimately show ?thesis using h by simp
qed

theorem tick_beyond_last_fractional_position:
  "Logo_init example_env fractional_args = Inr fractional_logo \<and>
   ps fractional_logo = [0, 5/2] \<and>
   style_xticks example_env 0 1 ''%d'' 0 [] fractional_logo
     = Ok (fractional_logo\<lparr>ax := Some (fractional_axes\<lparr>ax_xticks := [0, 1, 2, 3],
                                                ax_xticklabels := [''0'', ''1'', ''2'', ''3''],
                                                ax_xtick_rotation := 0,
                                                ax_xtick_kwargs := []\<rparr>)\<rparr>)"
proof -
  have grid: "np_arange 0 (7/2) = [0, 1, 2, 3]" by (simp add: np_arange_def upt_rec)
  have "style_xticks example_env 0 1 ''%d'' 0 [] fractional_logo
     = Ok (fractional_logo\<lparr>ax := Some (fractional_axes\<lparr>ax_xticks := [0, 1, 2, 3],
                                                ax_xticklabels := [''0'', ''1'', ''2'', ''3''],
                                                ax_xtick_rotation := 0,
                                                ax_xtick_kwargs := []\<rparr>)\<rparr>)"
    by (simp add: style_xticks_def fractional_logo_def grid np_mod_def example_format_d
        format_d_def Let_def)
  moreover have "ps fractional_logo = [0, 5/2]" by (simp add: fractional_logo_def)
  ultimately show ?thesis using Logo_init_fractional by simp
qed

end
